theory Spec2Isabelle
  imports Main "HOL-Library.Word"
begin

unbundle bit_operations_syntax

section \<open>Machine types and status codes\<close>

text \<open>
  The embedding follows \<^verbatim>\<open>lib/gssapi/mech/gss_import_name.c\<close> on an LP64 platform:
  \<^verbatim>\<open>unsigned char\<close> is 8 bits, \<^verbatim>\<open>int\<close> and \<^verbatim>\<open>OM_uint32\<close> are 32 bits,
  \<^verbatim>\<open>size_t\<close> is 64 bits. A \<^verbatim>\<open>gss_buffer_desc\<close> is the list of its bytes; its
  \<^verbatim>\<open>length\<close> field is the length of that list as a \<^verbatim>\<open>size_t\<close>.
\<close>

type_synonym byte = "8 word"
type_synonym c_int = "32 word"
type_synonym OM_uint32 = "32 word"
type_synonym size_t = "64 word"

datatype major_status =
    GSS_S_COMPLETE
  | GSS_S_BAD_MECH
  | GSS_S_BAD_NAME
  | GSS_S_BAD_NAMETYPE
  | GSS_S_FAILURE
  | GSS_S_NAME_NOT_MN
  | GSS_S_CALL_INACCESSIBLE_READ
  | GSS_S_CALL_INACCESSIBLE_WRITE

text \<open>
  A block of the C function either falls through with its local variables (\<open>Cont\<close>),
  executes a \<^verbatim>\<open>return\<close> (\<open>Return\<close>), or dereferences the cursor at an offset that is
  not inside the token buffer (\<open>ReadPast\<close>, with the offset). The last one is undefined
  behaviour in C; the model stops there.
\<close>

datatype 'a step = Cont 'a | Return major_status | ReadPast nat

definition then_step :: "'a step \<Rightarrow> ('a \<Rightarrow> 'b step) \<Rightarrow> 'b step" where
  "then_step s f = (case s of Cont x \<Rightarrow> f x | Return e \<Rightarrow> Return e | ReadPast i \<Rightarrow> ReadPast i)"

text \<open>\<^verbatim>\<open>p[i]\<close>, where the cursor \<^verbatim>\<open>p\<close> is \<open>p\<close> bytes into the buffer.\<close>

definition peek :: "byte list \<Rightarrow> nat \<Rightarrow> nat \<Rightarrow> byte step" where
  "peek buf p i = (if p + i < length buf then Cont (buf ! (p + i)) else ReadPast (p + i))"

text \<open>
  Conversion of an \<^verbatim>\<open>int\<close> to \<^verbatim>\<open>size_t\<close> on assignment: sign extension. (For a first
  byte of 0x80 or more \<^verbatim>\<open>p[0] << 24\<close> overflows \<^verbatim>\<open>int\<close>; the model takes the two's
  complement result every supported compiler produces.)
\<close>

definition int_to_size_t :: "c_int \<Rightarrow> size_t" where
  "int_to_size_t i = scast i"

section \<open>The exported name token parser\<close>

record gss_OID_desc =
  oid_length :: OM_uint32
  oid_elements :: nat

text \<open>Lines 53-67: TOK_ID. Yields \<^verbatim>\<open>composite\<close>, \<^verbatim>\<open>p\<close> and \<^verbatim>\<open>len\<close>.\<close>

definition tok_id :: "byte list \<Rightarrow> (bool \<times> nat \<times> size_t) step" where
  "tok_id buf =
     (let p = 0; len = (of_nat (length buf) :: size_t) in
      if len < 2 then Return GSS_S_BAD_NAME
      else then_step (peek buf p 0) (\<lambda>b0.
        if b0 \<noteq> 4 then Return GSS_S_BAD_NAME
        else then_step (peek buf p 1) (\<lambda>b1.
          if b1 = 1 then Cont (False, p + 2, len - 2)
          else if b1 = 2 then Cont (True, p + 2, len - 2)
          else Return GSS_S_BAD_NAME)))"

text \<open>
  Lines 112-117: \<^verbatim>\<open>while (digits--)\<close>. \<^verbatim>\<open>digits\<close> starts between 128 and 255, so the
  loop body runs \<^verbatim>\<open>digits\<close> times.
\<close>

fun der_length_loop ::
  "byte list \<Rightarrow> nat \<Rightarrow> OM_uint32 \<Rightarrow> nat \<Rightarrow> size_t \<Rightarrow> size_t \<Rightarrow> (OM_uint32 \<times> nat \<times> size_t \<times> size_t) step"
where
  "der_length_loop buf 0 l p len t = Cont (l, p, len, t)"
| "der_length_loop buf (Suc digits) l p len t =
     (case peek buf p 0 of
        Cont b \<Rightarrow> der_length_loop buf digits (push_bit 8 l OR ucast b) (p + 1) (len - 1) (t - 1)
      | Return e \<Rightarrow> Return e
      | ReadPast i \<Rightarrow> ReadPast i)"

text \<open>
  Lines 91-127: the mechanism OID field. Yields \<^verbatim>\<open>mech_oid\<close>, \<^verbatim>\<open>p\<close>, \<^verbatim>\<open>len\<close>
  and \<^verbatim>\<open>t\<close>.
\<close>

definition mech_oid_field ::
  "byte list \<Rightarrow> nat \<Rightarrow> size_t \<Rightarrow> (gss_OID_desc \<times> nat \<times> size_t \<times> size_t) step"
where
  "mech_oid_field buf p0 len0 =
     (if len0 < 2 then Return GSS_S_BAD_NAME
      else then_step (peek buf p0 0) (\<lambda>h0. then_step (peek buf p0 1) (\<lambda>h1.
        let t = int_to_size_t (push_bit 8 (ucast h0) + ucast h1);
            p = p0 + 2;
            len = len0 - 2
        in then_step (peek buf p 0) (\<lambda>tag.
          if tag \<noteq> 6 then Return GSS_S_BAD_NAME
          else
            let p = p + 1; len = len - 1; t = t - 1 in
            then_step (peek buf p 0) (\<lambda>b.
              then_step
                (if b AND 0x80 \<noteq> 0
                 then der_length_loop buf (unat b) 0 (p + 1) (len - 1) (t - 1)
                 else Cont (ucast b, p + 1, len - 1, t - 1))
                (\<lambda>(l, p, len, t).
                  if ucast l \<noteq> t then Return GSS_S_BAD_NAME
                  else Cont (\<lparr>oid_length = l, oid_elements = p\<rparr>, p, len, t)))))))"

text \<open>Lines 129-141: NAME_LEN, for a non-composite token only.\<close>

definition name_len_field ::
  "byte list \<Rightarrow> bool \<Rightarrow> nat \<Rightarrow> size_t \<Rightarrow> size_t \<Rightarrow> (nat \<times> size_t \<times> size_t) step"
where
  "name_len_field buf composite p0 len0 t0 =
     (if \<not> composite then
        if len0 < t0 + 4 then Return GSS_S_BAD_NAME
        else
          let p = p0 + unat t0; len = len0 - t0 in
          then_step (peek buf p 0) (\<lambda>b0. then_step (peek buf p 1) (\<lambda>b1.
          then_step (peek buf p 2) (\<lambda>b2. then_step (peek buf p 3) (\<lambda>b3.
            let t = int_to_size_t
                      (push_bit 24 (ucast b0) OR push_bit 16 (ucast b1) OR
                       push_bit 8 (ucast b2) OR ucast b3);
                p = p + 4;
                len = len - 4
            in if len \<noteq> t then Return GSS_S_BAD_NAME else Cont (p, len, t)))))
      else Cont (p0, len0, t0))"

text \<open>
  Lines 38-141 of \<^verbatim>\<open>_gss_import_export_name\<close>: everything before the mechanism is
  looked up. The local variables that are live at line 143 are the result.
\<close>

record export_name_token =
  composite :: bool
  mech_oid :: gss_OID_desc
  tok_p :: nat
  tok_len :: size_t

definition parse_export_name :: "byte list \<Rightarrow> export_name_token step" where
  "parse_export_name buf =
     then_step (tok_id buf) (\<lambda>(c, p, len).
     then_step (mech_oid_field buf p len) (\<lambda>(oid, p, len, t).
     then_step (name_len_field buf c p len t) (\<lambda>(p, len, t).
       Cont \<lparr>composite = c, mech_oid = oid, tok_p = p, tok_len = len\<rparr>)))"

text \<open>The bytes a view of the buffer denotes, when all of them are inside the buffer.\<close>

definition view :: "byte list \<Rightarrow> nat \<Rightarrow> nat \<Rightarrow> byte list option" where
  "view buf off n = (if off + n \<le> length buf then Some (take n (drop off buf)) else None)"

definition oid_content :: "byte list \<Rightarrow> gss_OID_desc \<Rightarrow> byte list option" where
  "oid_content buf oid = view buf (oid_elements oid) (unat (oid_length oid))"

definition payload :: "byte list \<Rightarrow> export_name_token \<Rightarrow> byte list option" where
  "payload buf tok = view buf (tok_p tok) (unat (tok_len tok))"

definition krb5_example :: "byte list" where
  "krb5_example =
     [0x04, 0x01, 0x00, 0x0B, 0x06, 0x09, 0x2A, 0x86, 0x48, 0x86, 0xF7, 0x12, 0x01, 0x02, 0x02,
      0x00, 0x00, 0x00, 0x03, 0x66, 0x6F, 0x6F]"


section \<open>Mechanisms, names and the state of the mech-glue\<close>

text \<open>
  A \<^verbatim>\<open>gss_OID\<close> is \<^verbatim>\<open>GSS_C_NO_OID\<close> (\<open>None\<close>) or the content octets of the OID.
  A mechanism's own \<^verbatim>\<open>gss_name_t\<close> is opaque to the mech-glue.
\<close>

type_synonym gss_OID = "byte list option"
type_synonym mech_name = nat
type_synonym import_name_fn = "byte list \<Rightarrow> gss_OID \<Rightarrow> major_status \<times> OM_uint32 \<times> mech_name"
type_synonym release_name_fn = "mech_name \<Rightarrow> major_status \<times> OM_uint32"

text \<open>
  Modelled from the spec: the header that declares \<^verbatim>\<open>gssapi_mech_interface_desc\<close> and
  \<^verbatim>\<open>struct _gss_mech_switch\<close> is not part of the sources. The fields are those this
  file uses, as the MechanismDescriptor of the spec describes them: the import-name
  capability may be absent (a null function pointer), \<^verbatim>\<open>gm_flags & GM_USE_MG_NAME\<close> is
  the flag "generic-name-only", \<^verbatim>\<open>gm_name_types\<close> is the set of supported name types.
  \<open>gmi_mech_oid\<close> is the field \<^verbatim>\<open>gm_mech_oid\<close> of the interface, \<open>gm_mech_oid\<close> the one
  of the switch entry.
\<close>

record gssapi_mech_interface_desc =
  gmi_mech_oid :: "byte list"
  gm_use_mg_name :: bool
  gm_import_name :: "import_name_fn option"
  gm_release_name :: release_name_fn

record gss_mech_switch =
  gm_mech_oid :: "byte list"
  gm_name_types :: "byte list list"
  gm_mech :: gssapi_mech_interface_desc

text \<open>
  Modelled from the spec: \<^verbatim>\<open>struct _gss_mechanism_name\<close> and \<^verbatim>\<open>struct _gss_name\<close>
  (MechanismName and GenericName of the spec). \<open>gn_value = None\<close> is the zeroed buffer
  of a fresh name, which owns no memory.
\<close>

record gss_mechanism_name =
  gmn_mech :: gssapi_mech_interface_desc
  gmn_mech_oid :: "byte list"
  gmn_name :: mech_name

record gss_name =
  gn_type :: gss_OID
  gn_value :: "byte list option"
  gn_mn :: "gss_mechanism_name list"
  is_mn :: bool

text \<open>
  What the calls leave behind: the allocations that are live, the operations of
  mechanisms that were invoked (in order), and the caller's \<^verbatim>\<open>*minor_status\<close>
  (\<open>None\<close> when a collaborator outside this file wrote it last). \<open>alloc_outcomes\<close> decides
  the next allocation requests of the mech-glue, \<open>False\<close> for a request that fails; past
  its end every request succeeds.
\<close>

datatype resource =
    Name_struct
  | Mn_node
  | Value_buffer "byte list"
  | Interned_oid "byte list"
  | Mech_name "byte list" mech_name

datatype mech_call =
    Import_name "byte list" "byte list" gss_OID
  | Release_name "byte list" mech_name
  | Mg_error "byte list" OM_uint32

record world =
  live :: "resource list"
  calls :: "mech_call list"
  alloc_outcomes :: "bool list"
  minor_status :: "OM_uint32 option"

text \<open>
  A call returns (\<open>Done\<close>) or runs into undefined behaviour: a read past the end of the
  token buffer, or a call through a null function pointer.
\<close>

datatype fault = Read_past nat | Null_call

datatype 'a outcome = Done 'a | Undefined fault

text \<open>The value of \<^verbatim>\<open>ENOMEM\<close> in \<^verbatim>\<open>errno.h\<close>.\<close>

definition ENOMEM :: OM_uint32 where
  "ENOMEM = 12"

text \<open>
  \<^verbatim>\<open>malloc\<close> and \<^verbatim>\<open>free\<close>, counted per kind of object: a request takes the next
  outcome, a release removes one live object of that kind.
\<close>

definition alloc :: "resource \<Rightarrow> world \<Rightarrow> bool \<times> world" where
  "alloc r w =
     (case alloc_outcomes w of
        [] \<Rightarrow> (True, w\<lparr>live := r # live w\<rparr>)
      | ok # rest \<Rightarrow>
          if ok then (True, w\<lparr>live := r # live w, alloc_outcomes := rest\<rparr>)
          else (False, w\<lparr>alloc_outcomes := rest\<rparr>))"

definition free :: "resource \<Rightarrow> world \<Rightarrow> world" where
  "free r w = w\<lparr>live := remove1 r (live w)\<rparr>"

text \<open>
  Modelled from the spec: the mechanisms behind the function pointers
  \<^verbatim>\<open>gm_import_name\<close> and \<^verbatim>\<open>gm_release_name\<close> are not part of the sources. A
  successful import leaves the mechanism's name allocated, and its release frees it.
  Both hand back a minor status, which the caller stores.
\<close>

definition call_import_name ::
  "gssapi_mech_interface_desc \<Rightarrow> import_name_fn \<Rightarrow> byte list \<Rightarrow> gss_OID \<Rightarrow> world \<Rightarrow>
     (major_status \<times> OM_uint32 \<times> mech_name) \<times> world"
where
  "call_import_name m imp buf name_type w =
     (case imp buf name_type of (major, minor, h) \<Rightarrow>
        ((major, minor, h),
         w\<lparr>live := (if major = GSS_S_COMPLETE then Mech_name (gmi_mech_oid m) h # live w
                     else live w),
           calls := calls w @ [Import_name (gmi_mech_oid m) buf name_type]\<rparr>))"

definition call_release_name ::
  "gssapi_mech_interface_desc \<Rightarrow> mech_name \<Rightarrow> world \<Rightarrow> (major_status \<times> OM_uint32) \<times> world"
where
  "call_release_name m h w =
     (gm_release_name m h,
      w\<lparr>live := remove1 (Mech_name (gmi_mech_oid m) h) (live w),
        calls := calls w @ [Release_name (gmi_mech_oid m) h]\<rparr>)"

text \<open>
  Modelled from the spec: \<^verbatim>\<open>_gss_mg_error\<close> is not part of the sources. It reports the
  mechanism's diagnostic for a minor status.
\<close>

definition gss_mg_error :: "gssapi_mech_interface_desc \<Rightarrow> OM_uint32 \<Rightarrow> world \<Rightarrow> world" where
  "gss_mg_error m minor w = w\<lparr>calls := calls w @ [Mg_error (gmi_mech_oid m) minor]\<rparr>"

text \<open>
  Modelled from the spec: \<^verbatim>\<open>_gss_create_name\<close> is not part of the sources. It allocates
  an empty GenericName, or with a mechanism name wraps it as a singleton GenericName
  with \<open>is_mn\<close> set; it yields no name, and keeps nothing allocated, when an allocation
  fails.
\<close>

definition gss_create_name ::
  "(mech_name \<times> gssapi_mech_interface_desc) option \<Rightarrow> world \<Rightarrow> gss_name option \<times> world"
where
  "gss_create_name new_mn w =
     (case alloc Name_struct w of
        (False, w1) \<Rightarrow> (None, w1)
      | (True, w1) \<Rightarrow>
          (case new_mn of
             None \<Rightarrow> (Some \<lparr>gn_type = None, gn_value = None, gn_mn = [], is_mn = False\<rparr>, w1)
           | Some (h, m) \<Rightarrow>
               (case alloc Mn_node w1 of
                  (False, w2) \<Rightarrow> (None, free Name_struct w2)
                | (True, w2) \<Rightarrow>
                    (Some \<lparr>gn_type = None, gn_value = None,
                           gn_mn = [\<lparr>gmn_mech = m, gmn_mech_oid = gmi_mech_oid m, gmn_name = h\<rparr>],
                           is_mn = True\<rparr>, w2))))"

text \<open>
  Modelled from the spec: \<^verbatim>\<open>_gss_intern_oid\<close> and \<^verbatim>\<open>_gss_copy_buffer\<close> are not part
  of the sources. Each yields an owned copy or fails; both write the minor status.
\<close>

definition gss_intern_oid :: "byte list \<Rightarrow> world \<Rightarrow> (major_status \<times> gss_OID) \<times> world" where
  "gss_intern_oid oid w =
     (case alloc (Interned_oid oid) w of
        (False, w1) \<Rightarrow> ((GSS_S_FAILURE, None), w1\<lparr>minor_status := None\<rparr>)
      | (True, w1) \<Rightarrow> ((GSS_S_COMPLETE, Some oid), w1\<lparr>minor_status := None\<rparr>))"

definition gss_copy_buffer ::
  "byte list \<Rightarrow> world \<Rightarrow> (major_status \<times> byte list option) \<times> world"
where
  "gss_copy_buffer from w =
     (case alloc (Value_buffer from) w of
        (False, w1) \<Rightarrow> ((GSS_S_FAILURE, None), w1\<lparr>minor_status := None\<rparr>)
      | (True, w1) \<Rightarrow> ((GSS_S_COMPLETE, Some from), w1\<lparr>minor_status := None\<rparr>))"

text \<open>
  Modelled from the spec: \<^verbatim>\<open>gss_release_name\<close> is not part of the sources. For each
  MechanismName in the sequence it invokes the owning mechanism's release operation on
  the handle and removes the node; then it frees the owned value buffer and the interned
  type; then the GenericName itself. Its minor status goes to a variable of its caller.
\<close>

fun release_mechanism_names :: "gss_mechanism_name list \<Rightarrow> world \<Rightarrow> world" where
  "release_mechanism_names [] w = w"
| "release_mechanism_names (mn # mns) w =
     release_mechanism_names mns
       (free Mn_node (snd (call_release_name (gmn_mech mn) (gmn_name mn) w)))"

definition gss_release_name :: "gss_name \<Rightarrow> world \<Rightarrow> world" where
  "gss_release_name name w =
     (let w1 = release_mechanism_names (gn_mn name) w;
          w2 = (case gn_value name of None \<Rightarrow> w1 | Some v \<Rightarrow> free (Value_buffer v) w1);
          w3 = (case gn_type name of None \<Rightarrow> w2 | Some ty \<Rightarrow> free (Interned_oid ty) w2)
      in free Name_struct w3)"

text \<open>
  Modelled from the spec: \<^verbatim>\<open>__gss_get_mechanism\<close> is not part of the sources. It yields
  the first registered mechanism whose OID equals the given one, byte for byte. The
  given OID is a view into the token buffer: comparing it with an OID of the same length
  reads all its bytes, also those the view claims past the end of the buffer.
\<close>

fun gss_get_mechanism ::
  "gss_mech_switch list \<Rightarrow> byte list \<Rightarrow> gss_OID_desc \<Rightarrow> gssapi_mech_interface_desc option outcome"
where
  "gss_get_mechanism [] buf oid = Done None"
| "gss_get_mechanism (m # ms) buf oid =
     (if length (gmi_mech_oid (gm_mech m)) = unat (oid_length oid) then
        (case oid_content buf oid of
           None \<Rightarrow> Undefined (Read_past (length buf))
         | Some bytes \<Rightarrow>
             if bytes = gmi_mech_oid (gm_mech m) then Done (Some (gm_mech m))
             else gss_get_mechanism ms buf oid)
      else gss_get_mechanism ms buf oid)"

section \<open>Importing an exported name\<close>

text \<open>
  \<^verbatim>\<open>_gss_import_export_name\<close>. The result is the major status, the caller's
  \<^verbatim>\<open>*output_name\<close> (\<open>None\<close> for the null name) and the state the call leaves.
\<close>

definition gss_import_export_name ::
  "gss_mech_switch list \<Rightarrow> world \<Rightarrow> byte list \<Rightarrow> gss_OID \<Rightarrow>
     (major_status \<times> gss_name option \<times> world) outcome"
where
  "gss_import_export_name mechs w input_name_buffer name_type =
     (let w0 = w\<lparr>minor_status := Some 0\<rparr> in
      case parse_export_name input_name_buffer of
        Return e \<Rightarrow> Done (e, None, w0)
      | ReadPast i \<Rightarrow> Undefined (Read_past i)
      | Cont tok \<Rightarrow>
          (case gss_get_mechanism mechs input_name_buffer (mech_oid tok) of
             Undefined f \<Rightarrow> Undefined f
           | Done None \<Rightarrow> Done (GSS_S_BAD_MECH, None, w0)
           | Done (Some m) \<Rightarrow>
               (case gm_import_name m of
                  None \<Rightarrow> Done (GSS_S_BAD_MECH, None, w0)
                | Some imp \<Rightarrow>
                    (case call_import_name m imp input_name_buffer name_type w0 of
                       ((major, minor, new_canonical_name), w1) \<Rightarrow>
                         let w1 = w1\<lparr>minor_status := Some minor\<rparr> in
                         if major \<noteq> GSS_S_COMPLETE
                         then Done (major, None, gss_mg_error m minor w1)
                         else
                           (case gss_create_name (Some (new_canonical_name, m)) w1 of
                              (None, w2) \<Rightarrow>
                                (case call_release_name m new_canonical_name w2 of
                                   ((_, minor'), w3) \<Rightarrow>
                                     Done (GSS_S_FAILURE, None, w3\<lparr>minor_status := Some minor'\<rparr>))
                            | (Some name, w2) \<Rightarrow>
                                Done (GSS_S_COMPLETE, Some name, w2\<lparr>minor_status := Some 0\<rparr>))))))"

section \<open>Importing a name of any other type\<close>

text \<open>
  Modelled from the spec: \<^verbatim>\<open>gss_test_oid_set_member\<close> is not part of the sources. It
  tells whether the OID is a member of the set, and writes the minor status.
\<close>

definition gss_test_oid_set_member :: "byte list \<Rightarrow> byte list list \<Rightarrow> bool" where
  "gss_test_oid_set_member member set_of_oids = (member \<in> set set_of_oids)"

definition buffer_bytes :: "byte list option \<Rightarrow> byte list" where
  "buffer_bytes b = (case b of None \<Rightarrow> [] | Some v \<Rightarrow> v)"

text \<open>
  Lines 262-303: \<^verbatim>\<open>HEIM_TAILQ_FOREACH(m, &_gss_mechs, gm_link)\<close>. The loop runs to its
  end, leaves by \<^verbatim>\<open>goto out\<close> with a major status, or calls a null function pointer.
\<close>

datatype loop_exit =
    Completed gss_name world
  | Goto_out major_status gss_name world
  | Loop_undefined fault

fun import_into_mechs :: "gss_mech_switch list \<Rightarrow> gss_OID \<Rightarrow> gss_name \<Rightarrow> world \<Rightarrow> loop_exit" where
  "import_into_mechs [] name_type name w = Completed name w"
| "import_into_mechs (m # ms) name_type name w =
     (if gm_use_mg_name (gm_mech m) then import_into_mechs ms name_type name w
      else
        case (case name_type of
                None \<Rightarrow> (True, w)
              | Some nt \<Rightarrow> (gss_test_oid_set_member nt (gm_name_types m), w\<lparr>minor_status := None\<rparr>))
        of
          (False, w0) \<Rightarrow> import_into_mechs ms name_type name w0
        | (True, w0) \<Rightarrow>
            (case alloc Mn_node w0 of
               (False, w1) \<Rightarrow> Goto_out GSS_S_FAILURE name (w1\<lparr>minor_status := Some ENOMEM\<rparr>)
             | (True, w1) \<Rightarrow>
                 (case gm_import_name (gm_mech m) of
                    None \<Rightarrow> Loop_undefined Null_call
                  | Some imp \<Rightarrow>
                      (case call_import_name (gm_mech m) imp (buffer_bytes (gn_value name))
                              (gn_type name) w1 of
                         ((major, minor, h), w2) \<Rightarrow>
                           let w2 = w2\<lparr>minor_status := Some minor\<rparr> in
                           if major \<noteq> GSS_S_COMPLETE
                           then import_into_mechs ms name_type name
                                  (free Mn_node (gss_mg_error (gm_mech m) minor w2))
                           else import_into_mechs ms name_type
                                  (name\<lparr>gn_mn := gn_mn name @
                                     [\<lparr>gmn_mech = gm_mech m, gmn_mech_oid = gm_mech_oid m,
                                       gmn_name = h\<rparr>]\<rparr>)
                                  w2))))"

text \<open>
  Modelled from the spec: the export-name and composite-export-name sentinels
  \<^verbatim>\<open>GSS_C_NT_EXPORT_NAME\<close> (1.3.6.1.5.6.4) and \<^verbatim>\<open>GSS_C_NT_COMPOSITE_EXPORT\<close>
  (1.3.6.1.5.6.6) are declared outside the sources.
\<close>

definition GSS_C_NT_EXPORT_NAME :: "byte list" where
  "GSS_C_NT_EXPORT_NAME = [0x2B, 0x06, 0x01, 0x05, 0x06, 0x04]"

definition GSS_C_NT_COMPOSITE_EXPORT :: "byte list" where
  "GSS_C_NT_COMPOSITE_EXPORT = [0x2B, 0x06, 0x01, 0x05, 0x06, 0x06]"

text \<open>
  Modelled from the spec: \<^verbatim>\<open>gss_oid_equal\<close> is not part of the sources. OIDs are
  compared by exact byte equality; \<^verbatim>\<open>GSS_C_NO_OID\<close> equals no OID.
\<close>

definition gss_oid_equal :: "gss_OID \<Rightarrow> byte list \<Rightarrow> bool" where
  "gss_oid_equal a b = (case a of None \<Rightarrow> False | Some x \<Rightarrow> x = b)"

text \<open>
  \<^verbatim>\<open>gss_import_name\<close>. \<open>input_name_buffer = None\<close> is \<^verbatim>\<open>GSS_C_NO_BUFFER\<close>;
  \<open>output_name\<close> tells whether the caller passed a slot for the result. \<open>mechs\<close> is the
  list \<^verbatim>\<open>_gss_mechs\<close> once \<^verbatim>\<open>_gss_load_mech\<close> has run, in registration order.
\<close>

definition gss_import_name ::
  "gss_mech_switch list \<Rightarrow> world \<Rightarrow> byte list option \<Rightarrow> gss_OID \<Rightarrow> bool \<Rightarrow>
     (major_status \<times> gss_name option \<times> world) outcome"
where
  "gss_import_name mechs w input_name_buffer input_name_type output_name =
     (case input_name_buffer of
        None \<Rightarrow> Done (GSS_S_CALL_INACCESSIBLE_READ, None, w)
      | Some buf \<Rightarrow>
          if \<not> output_name then Done (GSS_S_CALL_INACCESSIBLE_WRITE, None, w)
          else if gss_oid_equal input_name_type GSS_C_NT_EXPORT_NAME \<or>
                  gss_oid_equal input_name_type GSS_C_NT_COMPOSITE_EXPORT
          then gss_import_export_name mechs w buf input_name_type
          else
            (case gss_create_name None (w\<lparr>minor_status := Some 0\<rparr>) of
               (None, w1) \<Rightarrow> Done (GSS_S_FAILURE, None, w1\<lparr>minor_status := Some ENOMEM\<rparr>)
             | (Some name, w1) \<Rightarrow>
                 (case (case input_name_type of
                          None \<Rightarrow> ((GSS_S_COMPLETE, None), w1)
                        | Some nt \<Rightarrow> gss_intern_oid nt w1)
                  of ((major, ty), w2) \<Rightarrow>
                    if major \<noteq> GSS_S_COMPLETE
                    then Done (GSS_S_FAILURE, None, gss_release_name name w2)
                    else
                      let name = name\<lparr>gn_type := ty\<rparr> in
                      (case gss_copy_buffer buf w2 of
                         ((major, v), w3) \<Rightarrow>
                           let name = name\<lparr>gn_value := v\<rparr> in
                           if major \<noteq> GSS_S_COMPLETE
                           then Done (major, None, gss_release_name name w3)
                           else
                             (case import_into_mechs mechs input_name_type name w3 of
                                Loop_undefined f \<Rightarrow> Undefined f
                              | Goto_out major name w4 \<Rightarrow>
                                  Done (major, None, gss_release_name name w4)
                              | Completed name w4 \<Rightarrow>
                                  if gn_mn name = []
                                  then Done (GSS_S_NAME_NOT_MN, None,
                                             gss_release_name name (w4\<lparr>minor_status := Some 0\<rparr>))
                                  else Done (GSS_S_COMPLETE, Some name, w4))))))"


section \<open>Example tokens\<close>

definition mech_oid_krb5 :: "byte list" where
  "mech_oid_krb5 = [0x2A, 0x86, 0x48, 0x86, 0xF7, 0x12, 0x01, 0x02, 0x02]"

text \<open>
  The token of \<open>krb5_example\<close> with the length of the OID in the long form of DER, one
  continuation byte (\<^verbatim>\<open>81 09\<close>); and the same with a name of 200 bytes.
\<close>

definition long_form_example :: "byte list" where
  "long_form_example =
     [0x04, 0x01, 0x00, 0x0C, 0x06, 0x81, 0x09] @ mech_oid_krb5 @
     [0x00, 0x00, 0x00, 0x03, 0x66, 0x6F, 0x6F]"

definition long_form_padded :: "byte list" where
  "long_form_padded =
     [0x04, 0x01, 0x00, 0x0C, 0x06, 0x81, 0x09] @ mech_oid_krb5 @
     [0x00, 0x00, 0x00, 0xC8] @ replicate 200 0x61"

text \<open>A composite token whose NAME_LEN says 3 where 5 bytes follow.\<close>

definition composite_example :: "byte list" where
  "composite_example =
     [0x04, 0x02, 0x00, 0x0B, 0x06, 0x09, 0x2A, 0x86, 0x48, 0x86, 0xF7, 0x12, 0x01, 0x02, 0x02,
      0x00, 0x00, 0x00, 0x03, 0x66, 0x6F, 0x6F, 0x41, 0x42]"

text \<open>
  The big-endian 32-bit integer that four bytes encode, as the specification reads the
  NAME_LEN field.
\<close>

definition be32 :: "byte \<Rightarrow> byte \<Rightarrow> byte \<Rightarrow> byte \<Rightarrow> nat" where
  "be32 b0 b1 b2 b3 = unat b0 * 2 ^ 24 + unat b1 * 2 ^ 16 + unat b2 * 2 ^ 8 + unat b3"

section \<open>Vocabulary of the claims about the generic path\<close>

text \<open>
  A mechanism is eligible for a name type when the loop does not skip it: it is not
  flagged \<^verbatim>\<open>GM_USE_MG_NAME\<close> and, when a type is given, supports that type. Its import
  succeeds when its import-name operation returns \<^verbatim>\<open>GSS_S_COMPLETE\<close> and fails when
  the operation returns any other status. \<open>mechanism_name_of\<close> is the MechanismName a
  successful import into the mechanism yields.
\<close>

definition eligible :: "gss_OID \<Rightarrow> gss_mech_switch \<Rightarrow> bool" where
  "eligible name_type m =
     (\<not> gm_use_mg_name (gm_mech m) \<and>
      (case name_type of None \<Rightarrow> True | Some nt \<Rightarrow> nt \<in> set (gm_name_types m)))"

definition import_status :: "gss_mech_switch \<Rightarrow> byte list \<Rightarrow> gss_OID \<Rightarrow> major_status option" where
  "import_status m buf name_type =
     (case gm_import_name (gm_mech m) of None \<Rightarrow> None | Some imp \<Rightarrow> Some (fst (imp buf name_type)))"

definition import_succeeds :: "byte list \<Rightarrow> gss_OID \<Rightarrow> gss_mech_switch \<Rightarrow> bool" where
  "import_succeeds buf name_type m = (import_status m buf name_type = Some GSS_S_COMPLETE)"

definition import_fails :: "byte list \<Rightarrow> gss_OID \<Rightarrow> gss_mech_switch \<Rightarrow> bool" where
  "import_fails buf name_type m =
     (case import_status m buf name_type of None \<Rightarrow> False | Some s \<Rightarrow> s \<noteq> GSS_S_COMPLETE)"

definition mechanism_name_of :: "byte list \<Rightarrow> gss_OID \<Rightarrow> gss_mech_switch \<Rightarrow> gss_mechanism_name" where
  "mechanism_name_of buf name_type m =
     \<lparr>gmn_mech = gm_mech m, gmn_mech_oid = gm_mech_oid m,
      gmn_name = (case gm_import_name (gm_mech m) of
                    None \<Rightarrow> 0
                  | Some imp \<Rightarrow> snd (snd (imp buf name_type)))\<rparr>"

definition no_alloc_failure :: "world \<Rightarrow> bool" where
  "no_alloc_failure w = (False \<notin> set (alloc_outcomes w))"

definition resources_of :: "gss_mechanism_name \<Rightarrow> resource list" where
  "resources_of mn = [Mech_name (gmi_mech_oid (gmn_mech mn)) (gmn_name mn), Mn_node]"

section \<open>Example registries\<close>

definition world0 :: world where
  "world0 = \<lparr>live = [], calls = [], alloc_outcomes = [], minor_status = None\<rparr>"

text \<open>
  A mechanism whose import-name operation always returns the given status, with the
  length of the buffer as the imported name.
\<close>

definition mech_returning :: "byte list \<Rightarrow> major_status \<Rightarrow> gss_mech_switch" where
  "mech_returning oid status =
     \<lparr>gm_mech_oid = oid, gm_name_types = [],
      gm_mech = \<lparr>gmi_mech_oid = oid, gm_use_mg_name = False,
                 gm_import_name = Some (\<lambda>buf name_type. (status, 0, length buf)),
                 gm_release_name = (\<lambda>h. (GSS_S_COMPLETE, 0))\<rparr>\<rparr>"

definition mech_oid_spnego :: "byte list" where
  "mech_oid_spnego = [0x2B, 0x06, 0x01, 0x05, 0x05, 0x02]"

definition mech_oid_ntlm :: "byte list" where
  "mech_oid_ntlm = [0x2B, 0x06, 0x01, 0x04, 0x01, 0x82, 0x37, 0x02, 0x02, 0x0A]"

definition three_mechs :: "gss_mech_switch list" where
  "three_mechs =
     [mech_returning mech_oid_krb5 GSS_S_COMPLETE,
      mech_returning mech_oid_spnego GSS_S_BAD_NAME,
      mech_returning mech_oid_ntlm GSS_S_COMPLETE]"

definition foo :: "byte list" where
  "foo = [0x66, 0x6F, 0x6F]"

section \<open>The parser on concrete tokens\<close>

text \<open>
  C9: the bytes 04 01 00 0B 06 09 2A 86 48 86 F7 12 01 02 02 00 00 00 03 66 6F 6F parse
  with composite = false; the mechanism OID is the 9 bytes 2A 86 48 86 F7 12 01 02 02
  and the payload is the 3 bytes "foo".
\<close>

theorem krb5_example_parses:
  "parse_export_name krb5_example =
     Cont \<lparr>composite = False, mech_oid = \<lparr>oid_length = 9, oid_elements = 6\<rparr>,
           tok_p = 19, tok_len = 3\<rparr> \<and>
   oid_content krb5_example \<lparr>oid_length = 9, oid_elements = 6\<rparr> =
     Some [0x2A, 0x86, 0x48, 0x86, 0xF7, 0x12, 0x01, 0x02, 0x02] \<and>
   payload krb5_example
     \<lparr>composite = False, mech_oid = \<lparr>oid_length = 9, oid_elements = 6\<rparr>,
      tok_p = 19, tok_len = 3\<rparr> =
     Some [0x66, 0x6F, 0x6F]"
  by code_simp

text \<open>
  C1: the parser is to fail with BadName on every bounds violation and never read past
  the buffer. The code reads the OID tag, the DER length byte and the continuation bytes
  without a check: on the 4 bytes 04 01 00 0B it reads offset 4, on 04 01 00 0B 06
  offset 5, on 04 01 00 0B 06 81 09 offset 7, each one past the end of the buffer.
\<close>

theorem parser_reads_past_buffer:
  "parse_export_name [0x04, 0x01, 0x00, 0x0B] = ReadPast 4 \<and>
   parse_export_name [0x04, 0x01, 0x00, 0x0B, 0x06] = ReadPast 5 \<and>
   parse_export_name [0x04, 0x01, 0x00, 0x0B, 0x06, 0x81, 0x09] = ReadPast 7 \<and>
   gss_import_export_name mechs w [0x04, 0x01, 0x00, 0x0B] name_type = Undefined (Read_past 4)"
proof -
  have tag: "parse_export_name [0x04, 0x01, 0x00, 0x0B] = ReadPast 4"
    by code_simp
  have len_byte: "parse_export_name [0x04, 0x01, 0x00, 0x0B, 0x06] = ReadPast 5"
    by code_simp
  have continuation: "parse_export_name [0x04, 0x01, 0x00, 0x0B, 0x06, 0x81, 0x09] = ReadPast 7"
    by code_simp
  have "gss_import_export_name mechs w [0x04, 0x01, 0x00, 0x0B] name_type =
          Undefined (Read_past 4)"
    by (simp add: gss_import_export_name_def tag)
  with tag len_byte continuation show ?thesis by simp
qed

text \<open>
  C2: with the high bit of the DER length byte set, the number of continuation bytes is
  to be the low 7 bits of that byte. The code takes the whole byte as the count: for
  \<^verbatim>\<open>81 09\<close> it consumes 129 bytes instead of 1. The well-formed token with one
  continuation byte is read past its end; with a name long enough for the 129 bytes to
  be inside the buffer it is rejected with BadName.
\<close>

theorem long_form_length_miscounted:
  "parse_export_name long_form_example = ReadPast 23 \<and>
   parse_export_name long_form_padded = Return GSS_S_BAD_NAME"
  by code_simp

section \<open>What a block that falls through has established\<close>

lemma peek_Cont: "peek buf p i = Cont b \<longleftrightarrow> p + i < length buf \<and> b = buf ! (p + i)"
  by (auto simp: peek_def)

lemma then_step_Cont:
  "then_step s f = Cont y \<longleftrightarrow> (\<exists>x. s = Cont x \<and> f x = Cont y)"
  by (cases s) (simp_all add: then_step_def)

lemma der_length_loop_Cont:
  "der_length_loop buf d l p len t = Cont (l', p', len', t') \<Longrightarrow> p \<le> length buf \<Longrightarrow>
     p' = p + d \<and> p' \<le> length buf \<and> len' = len - of_nat d \<and> t' = t - of_nat d"
proof (induction d arbitrary: l p len t)
  case 0
  then show ?case by simp
next
  case (Suc d)
  from Suc.prems have lt: "p < length buf"
    by (auto simp: peek_def split: step.splits if_splits)
  with Suc.prems have
    "der_length_loop buf d (push_bit 8 l OR ucast (buf ! p)) (p + 1) (len - 1) (t - 1) =
       Cont (l', p', len', t')"
    by (simp add: peek_def)
  from Suc.IH [OF this] lt show ?case by simp
qed

lemma mech_oid_field_Cont:
  assumes "mech_oid_field buf p len = Cont (oid, p', len', t)"
  shows "p + 4 \<le> p' \<and> p' \<le> length buf \<and> len' = len - of_nat (p' - p) \<and>
         t = ucast (oid_length oid) \<and> oid_elements oid = p'"
  using assms
  apply (auto simp: mech_oid_field_def Let_def then_step_Cont peek_Cont split: if_splits dest!: der_length_loop_Cont)
  done

lemma tok_id_Cont:
  assumes "tok_id buf = Cont (c, p, len)"
  shows "p = 2 \<and> 2 \<le> length buf \<and> len = of_nat (length buf) - 2 \<and>
         buf ! 0 = 4 \<and> buf ! 1 = (if c then 2 else 1)"
  using assms
  by (auto simp: tok_id_def Let_def then_step_Cont peek_Cont split: if_splits)

section \<open>Words: the NAME_LEN expression and the conversion to \<^verbatim>\<open>size_t\<close>\<close>

lemma unat_byte_lt: "unat (b :: byte) < 256"
  using unsigned_less [of b] by simp

lemma unat_ucast_byte: "unat (ucast (b::byte) :: 32 word) = unat b"
  using unat_byte_lt [of b] by (simp add: unsigned_ucast_eq take_bit_nat_eq_self)

lemma unat_shifted:
  fixes b :: byte
  shows "unat (push_bit 24 (ucast b :: 32 word)) = unat b * 2 ^ 24"
    and "unat (push_bit 16 (ucast b :: 32 word)) = unat b * 2 ^ 16"
    and "unat (push_bit 8 (ucast b :: 32 word)) = unat b * 2 ^ 8"
  using unat_byte_lt [of b]
  by (simp_all add: push_bit_eq_mult unat_word_ariths unat_ucast_byte)

lemma uint_unat_32: "uint (x :: 32 word) = int (unat x)"
  by simp

lemma sint_small:
  assumes "unat (x :: 32 word) < 2 ^ 31" shows "sint x = uint x"
proof -
  have "int (unat x) < int (2 ^ 31)" using assms by (simp only: of_nat_less_iff)
  then have hi: "uint x < 2 ^ 31" by simp
  have "- (2 ^ 31) \<le> (0 :: int)" by simp
  also have "0 \<le> uint x" by simp
  finally have lo: "- (2 ^ 31) \<le> uint x" .
  have "signed_take_bit 31 (uint x) = uint x"
    using lo hi by (rule signed_take_bit_int_eq_self)
  then show ?thesis
    by (simp add: sint_uint)
qed

lemma sint_big:
  assumes "2 ^ 31 \<le> unat (x :: 32 word)" shows "sint x < 0"
proof -
  have "int (2 ^ 31) \<le> int (unat x)" using assms by (simp only: of_nat_le_iff)
  then have "2 ^ 31 \<le> uint x" by simp
  from signed_take_bit_int_less_eq [OF this] have "sint x \<le> uint x - 2 ^ 32"
    by (simp add: sint_uint)
  moreover have "uint x < 2 ^ 32" using uint_lt2p [of x] by simp
  ultimately show ?thesis by linarith
qed


lemma int_to_size_t_small: 
  assumes "unat x < 2 ^ 31" shows "int_to_size_t x = of_nat (unat x)"
  unfolding int_to_size_t_def using sint_small [OF assms]
  by (simp add: scast_eq)

lemma int_to_size_t_big:
  assumes "2 ^ 31 \<le> unat x" shows "2 ^ 63 \<le> unat (int_to_size_t x)"
proof -
  have neg: "sint x < 0" by (rule sint_big [OF assms])
  have lo: "- (2 ^ 31) \<le> sint x" using sint_ge [of x] by simp
  have "(sint x + 2 ^ 64) mod 2 ^ 64 = sint x + 2 ^ 64"
    using neg lo by (intro mod_pos_pos_trivial) simp_all
  then have "sint x mod 2 ^ 64 = sint x + 2 ^ 64"
    by simp
  then have "uint (int_to_size_t x) = sint x + 2 ^ 64"
    by (simp only: int_to_size_t_def scast_eq uint_word_of_int) simp
  with lo have "2 ^ 63 \<le> uint (int_to_size_t x)" by simp
  then have "int (2 ^ 63) \<le> int (unat (int_to_size_t x))" by simp
  then show ?thesis by (simp only: of_nat_le_iff)
qed


lemma byte_bit_bound: "bit (b :: byte) n \<Longrightarrow> n < 8"
  using bit_imp_le_length [of b n] by simp

lemma or_is_add:
  fixes b0 b1 b2 b3 :: byte
  shows "(push_bit 24 (ucast b0) OR push_bit 16 (ucast b1) OR push_bit 8 (ucast b2) OR ucast b3 :: 32 word)
       = push_bit 24 (ucast b0) + (push_bit 16 (ucast b1) + (push_bit 8 (ucast b2) + ucast b3))"
proof -
  have 1: "(push_bit 8 (ucast b2) + ucast b3 :: 32 word) = push_bit 8 (ucast b2) OR ucast b3"
    by (rule disjunctive_add) (auto simp: bit_simps dest: byte_bit_bound)
  have 2: "(push_bit 16 (ucast b1) + (push_bit 8 (ucast b2) OR ucast b3) :: 32 word) 
       = push_bit 16 (ucast b1) OR (push_bit 8 (ucast b2) OR ucast b3)"
    by (rule disjunctive_add) (auto simp: bit_simps dest: byte_bit_bound)
  have 3: "(push_bit 24 (ucast b0) + (push_bit 16 (ucast b1) OR (push_bit 8 (ucast b2) OR ucast b3)) :: 32 word) 
       = push_bit 24 (ucast b0) OR (push_bit 16 (ucast b1) OR (push_bit 8 (ucast b2) OR ucast b3))"
    by (rule disjunctive_add) (auto simp: bit_simps dest: byte_bit_bound)
  show ?thesis by (simp only: 1 2 3)
qed

lemma be32_bound: "be32 b0 b1 b2 b3 < 2 ^ 32"
  using unat_byte_lt [of b0] unat_byte_lt [of b1] unat_byte_lt [of b2] unat_byte_lt [of b3]
  by (simp add: be32_def)

lemma name_len_unat:
  fixes b0 b1 b2 b3 :: byte
  shows "unat (push_bit 24 (ucast b0) OR push_bit 16 (ucast b1) OR push_bit 8 (ucast b2) OR ucast b3 :: 32 word)
       = be32 b0 b1 b2 b3"
proof -
  have "unat (push_bit 24 (ucast b0) + (push_bit 16 (ucast b1) + (push_bit 8 (ucast b2) + ucast b3)) :: 32 word)
      = be32 b0 b1 b2 b3 mod 2 ^ 32"
    by (simp only: unat_word_ariths unat_shifted unat_ucast_byte be32_def mod_add_right_eq add.assoc) simp 
  then show ?thesis
    using be32_bound [of b0 b1 b2 b3] by (simp only: or_is_add mod_less)
qed

lemma unat_of_nat_64: "n < 2 ^ 64 \<Longrightarrow> unat (of_nat n :: size_t) = n"
  by (simp add: unat_of_nat)

lemma unat_ucast_length: "unat (ucast (l :: OM_uint32) :: size_t) = unat l"
proof -
  have "unat l < 2 ^ 32" using unsigned_less [of l] by simp
  then have "unat l < 2 ^ 64" by (rule less_trans) simp
  then show ?thesis by (simp add: unsigned_ucast_eq take_bit_nat_eq_self)
qed

lemma name_len_field_short:
  "len < t + 4 \<Longrightarrow> name_len_field buf False q len t = Return GSS_S_BAD_NAME"
  by (simp add: name_len_field_def)

lemma name_len_field_enough:
  assumes "\<not> len < t + 4" and "q + unat t + 4 \<le> length buf"
  shows "name_len_field buf False q len t =
     (let r = q + unat t;
          n = int_to_size_t (push_bit 24 (ucast (buf ! r)) OR push_bit 16 (ucast (buf ! (r + 1))) OR
                  push_bit 8 (ucast (buf ! (r + 2))) OR ucast (buf ! (r + 3)))
      in if len - t - 4 \<noteq> n then Return GSS_S_BAD_NAME else Cont (r + 4, len - t - 4, n))"
  using assms by (simp add: name_len_field_def peek_def then_step_def Let_def)

section \<open>Non-composite tokens: NAME_LEN is enforced\<close>

text \<open>
  C6: for a non-composite token whose mechanism OID field parses, the parser requires
  the OID content and the 4 bytes of NAME_LEN to remain (BadName otherwise), reads the
  big-endian 32-bit name length N after the OID, and fails with BadName unless the
  number of bytes after the length field is exactly N. (A token is accepted only with
  N below \<open>2 ^ 31\<close>: a larger N is sign-extended before the comparison.) Buffers are
  shorter than \<open>2 ^ 63\<close> bytes, the largest object the platform has.
\<close>

theorem non_composite_name_length_strict:
  assumes bound: "length buf < 2 ^ 63"
    and tid: "tok_id buf = Cont (False, p, len)"
    and oidf: "mech_oid_field buf p len = Cont (oid, q, len', t)"
  shows "parse_export_name buf =
     (let r = q + unat (oid_length oid);
          N = be32 (buf ! r) (buf ! (r + 1)) (buf ! (r + 2)) (buf ! (r + 3))
      in if length buf - q < unat (oid_length oid) + 4 then Return GSS_S_BAD_NAME
         else if length buf - (r + 4) \<noteq> N then Return GSS_S_BAD_NAME
         else if 2 ^ 31 \<le> N then Return GSS_S_BAD_NAME
         else Cont \<lparr>composite = False, mech_oid = oid, tok_p = r + 4, tok_len = of_nat N\<rparr>)"
proof -
  define L where "L = unat (oid_length oid)"
  define r where "r = q + L"
  define n32 :: c_int where
    "n32 = push_bit 24 (ucast (buf ! r)) OR push_bit 16 (ucast (buf ! (r + 1))) OR
           push_bit 8 (ucast (buf ! (r + 2))) OR ucast (buf ! (r + 3))"
  define N where "N = be32 (buf ! r) (buf ! (r + 1)) (buf ! (r + 2)) (buf ! (r + 3))"
  have b64: "length buf < 2 ^ 64"
    using bound by (rule less_trans) simp
  from tok_id_Cont [OF tid] have p: "p = 2" and len: "len = of_nat (length buf) - 2"
    by simp_all
  from mech_oid_field_Cont [OF oidf] p
  have q: "6 \<le> q" "q \<le> length buf" and len': "len' = len - of_nat (q - 2)"
    and t: "t = ucast (oid_length oid)"
    by simp_all
  have "len' = of_nat (length buf - q)"
    using q by (simp add: len' len)
  moreover have "length buf - q < 2 ^ 64"
    using b64 by simp
  ultimately have ulen': "unat len' = length buf - q"
    by (simp add: unat_of_nat_64)
  have ut: "unat t = L"
    by (simp add: t L_def unat_ucast_length)
  have L32: "L < 2 ^ 32"
    using unsigned_less [of "oid_length oid"] by (simp add: L_def)
  have ut4: "unat (t + 4) = L + 4"
  proof -
    have "L + 4 < 2 ^ 64" using L32 by simp
    then have "unat t + unat (4 :: size_t) < 2 ^ LENGTH(64)" by (simp add: ut)
    then have "unat (t + 4) = unat t + unat (4 :: size_t)" by (simp only: unat_add_lem)
    then show ?thesis by (simp add: ut)
  qed
  have short_iff: "len' < t + 4 \<longleftrightarrow> length buf - q < L + 4"
    by (simp add: word_less_nat_alt ulen' ut4)
  have head: "parse_export_name buf =
      then_step (name_len_field buf False q len' t) (\<lambda>(p, len, t).
        Cont \<lparr>composite = False, mech_oid = oid, tok_p = p, tok_len = len\<rparr>)"
    by (simp add: parse_export_name_def tid oidf then_step_def)
  have main: "parse_export_name buf =
     (if length buf - q < L + 4 then Return GSS_S_BAD_NAME
      else if length buf - (r + 4) \<noteq> N then Return GSS_S_BAD_NAME
      else if 2 ^ 31 \<le> N then Return GSS_S_BAD_NAME
      else Cont \<lparr>composite = False, mech_oid = oid, tok_p = r + 4, tok_len = of_nat N\<rparr>)"
  proof (cases "length buf - q < L + 4")
    case True
    then show ?thesis
      by (simp add: head name_len_field_short short_iff then_step_def)
  next
    case False
    then have enough: "q + unat t + 4 \<le> length buf"
      by (simp add: ut)
    have "t + 4 \<le> len'"
      using False by (simp add: word_le_nat_alt ulen' ut4)
    have tle: "t \<le> len'"
      using False by (simp add: word_le_nat_alt ulen' ut)
    then have u1: "unat (len' - t) = length buf - q - L"
      by (simp add: unat_sub ulen' ut)
    have "(4 :: size_t) \<le> len' - t"
      using False by (simp add: word_le_nat_alt u1)
    then have urest: "unat (len' - t - 4) = length buf - (r + 4)"
      by (simp add: unat_sub u1 r_def)
    have un32: "unat n32 = N"
      by (simp only: n32_def N_def name_len_unat)
    have field: "name_len_field buf False q len' t =
        (if len' - t - 4 \<noteq> int_to_size_t n32 then Return GSS_S_BAD_NAME
         else Cont (r + 4, len' - t - 4, int_to_size_t n32))"
      using name_len_field_enough [OF _ enough, of len'] False
      by (simp add: short_iff Let_def n32_def r_def ut)
    have rest_small: "length buf - (r + 4) < 2 ^ 63"
      using bound by simp
    show ?thesis
    proof (cases "2 ^ 31 \<le> N")
      case True
      then have "2 ^ 63 \<le> unat (int_to_size_t n32)"
        by (simp only: int_to_size_t_big un32)
      with rest_small have "unat (len' - t - 4) \<noteq> unat (int_to_size_t n32)"
        by (simp add: urest)
      then have "len' - t - 4 \<noteq> int_to_size_t n32"
        by auto
      then show ?thesis
        using True False
        by (simp add: head field then_step_def)
    next
      case small: False
      then have "unat n32 < 2 ^ 31" by (simp add: un32)
      then have conv: "int_to_size_t n32 = of_nat N"
        by (simp only: int_to_size_t_small un32)
      have "N < 2 ^ 64"
        using small by simp
      then have uN: "unat (of_nat N :: size_t) = N"
        by (rule unat_of_nat_64)
      have eq_iff: "len' - t - 4 = of_nat N \<longleftrightarrow> length buf - (r + 4) = N"
        by (simp add: word_unat_eq_iff urest uN)
      show ?thesis
        using small False
        by (simp add: head field eq_iff then_step_def conv)
    qed
  qed
  then show ?thesis
    by (simp only: Let_def L_def r_def N_def)
qed

theorem non_composite_name_length_strict_witness:
  "length krb5_example < 2 ^ 63 \<and>
   tok_id krb5_example = Cont (False, 2, 20) \<and>
   mech_oid_field krb5_example 2 20 = Cont (\<lparr>oid_length = 9, oid_elements = 6\<rparr>, 6, 16, 9) \<and>
   parse_export_name krb5_example =
     Cont \<lparr>composite = False, mech_oid = \<lparr>oid_length = 9, oid_elements = 6\<rparr>,
           tok_p = 19, tok_len = 3\<rparr>"
proof -
  have h1: "length krb5_example < 2 ^ 63"
    by (simp add: krb5_example_def)
  have h2: "tok_id krb5_example = Cont (False, 2, 20)"
    by code_simp
  have h3: "mech_oid_field krb5_example 2 20 =
              Cont (\<lparr>oid_length = 9, oid_elements = 6\<rparr>, 6, 16, 9)"
    by code_simp
  have "parse_export_name krb5_example =
     Cont \<lparr>composite = False, mech_oid = \<lparr>oid_length = 9, oid_elements = 6\<rparr>,
           tok_p = 19, tok_len = 3\<rparr>"
    using non_composite_name_length_strict [OF h1 h2 h3]
    by (simp add: krb5_example_def be32_def)
  with h1 h2 h3 show ?thesis by simp
qed

section \<open>Composite tokens: nothing is enforced after the OID header\<close>

lemma nth_of_equal_prefix:
  assumes "take n xs = take n ys" and "i < n"
  shows "xs ! i = ys ! i"
proof -
  have "take n xs ! i = take n ys ! i" using assms(1) by simp
  with assms(2) show ?thesis by simp
qed

lemma der_length_loop_prefix:
  "der_length_loop buf d l p len t = Cont (l', q, len', t') \<Longrightarrow>
   take (p + d) buf' = take (p + d) buf \<Longrightarrow> p + d \<le> length buf' \<Longrightarrow>
   der_length_loop buf' d l p len2 t = Cont (l', q, len2 - of_nat d, t')"
proof (induction d arbitrary: l p len len2 t)
  case 0
  then show ?case by simp
next
  case (Suc d)
  from Suc.prems(1) have lt: "p < length buf"
    by (auto simp: peek_def split: step.splits if_splits)
  with Suc.prems(1) have run:
    "der_length_loop buf d (push_bit 8 l OR ucast (buf ! p)) (p + 1) (len - 1) (t - 1) =
       Cont (l', q, len', t')"
    by (simp add: peek_def)
  have same: "buf' ! p = buf ! p"
    using Suc.prems(2) by (rule nth_of_equal_prefix) simp
  have lt': "p < length buf'"
    using Suc.prems(3) by simp
  have "der_length_loop buf' d (push_bit 8 l OR ucast (buf ! p)) (p + 1) (len2 - 1) (t - 1) =
       Cont (l', q, len2 - 1 - of_nat d, t')"
    using Suc.prems(2,3) by (intro Suc.IH [OF run]) simp_all
  with lt' same show ?case
    by (simp add: peek_def)
qed

lemma mech_oid_field_unfold:
  assumes "p + 4 \<le> length buf"
  shows "mech_oid_field buf p len =
     (if len < 2 then Return GSS_S_BAD_NAME
      else if buf ! (p + 2) \<noteq> 6 then Return GSS_S_BAD_NAME
      else then_step
             (if buf ! (p + 3) AND 0x80 \<noteq> 0
              then der_length_loop buf (unat (buf ! (p + 3))) 0 (p + 4) (len - 4)
                     (int_to_size_t (push_bit 8 (ucast (buf ! p)) + ucast (buf ! (p + 1))) - 2)
              else Cont (ucast (buf ! (p + 3)), p + 4, len - 4,
                     int_to_size_t (push_bit 8 (ucast (buf ! p)) + ucast (buf ! (p + 1))) - 2))
             (\<lambda>(l, p, len, t).
                if ucast l \<noteq> t then Return GSS_S_BAD_NAME
                else Cont (\<lparr>oid_length = l, oid_elements = p\<rparr>, p, len, t)))"
proof -
  have pk: "peek buf p 0 = Cont (buf ! p)" "peek buf p 1 = Cont (buf ! (p + 1))"
    "peek buf (p + 2) 0 = Cont (buf ! (p + 2))" "peek buf (p + 2 + 1) 0 = Cont (buf ! (p + 2 + 1))"
    using assms by (simp_all add: peek_def)
  have ar: "p + 2 + 1 = p + 3" "p + 3 + 1 = p + 4" "len - 2 - 2 = len - 4" "len - 2 - 1 - 1 = len - 4" "\<And>x :: size_t. x - 1 - 1 = x - 2"
    by simp_all
  show ?thesis
    unfolding mech_oid_field_def Let_def pk
    by (simp only: then_step_def step.case ar)
qed


lemma mech_oid_field_prefix:
  assumes run: "mech_oid_field buf p len = Cont (oid, q, len', t)"
    and same: "take q buf' = take q buf"
    and inside: "q \<le> length buf'"
    and len2: "\<not> len2 < 2"
  shows "mech_oid_field buf' p len2 = Cont (oid, q, len2 - of_nat (q - p), t)"
proof -
  from mech_oid_field_Cont [OF run] have q: "p + 4 \<le> q" "q \<le> length buf"
    by simp_all
  have nth: "\<And>i. i < 4 \<Longrightarrow> buf' ! (p + i) = buf ! (p + i)"
    using same q by (intro nth_of_equal_prefix [of q]) simp_all
  have n: "buf' ! p = buf ! p" "buf' ! (p + 1) = buf ! (p + 1)" "buf' ! (p + 2) = buf ! (p + 2)"
    "buf' ! (p + 3) = buf ! (p + 3)"
    using nth [of 0] nth [of 1] nth [of 2] nth [of 3] by simp_all
  define t0 :: size_t where
    "t0 = int_to_size_t (push_bit 8 (ucast (buf ! p)) + ucast (buf ! (p + 1))) - 2"
  have four: "p + 4 \<le> length buf" "p + 4 \<le> length buf'"
    using q inside by simp_all
  note run' = run [unfolded mech_oid_field_unfold [OF four(1)] t0_def [symmetric]]
  have tag: "buf ! (p + 2) = 6" and len: "\<not> len < 2"
    using run' by (simp_all split: if_splits)
  have unf': "mech_oid_field buf' p len2 =
      then_step
             (if buf ! (p + 3) AND 0x80 \<noteq> 0
              then der_length_loop buf' (unat (buf ! (p + 3))) 0 (p + 4) (len2 - 4) t0
              else Cont (ucast (buf ! (p + 3)), p + 4, len2 - 4, t0))
             (\<lambda>(l, p, len, t).
                if ucast l \<noteq> t then Return GSS_S_BAD_NAME
                else Cont (\<lparr>oid_length = l, oid_elements = p\<rparr>, p, len, t))"
    using len2 tag
    by (simp only: mech_oid_field_unfold [OF four(2)] n t0_def [symmetric] if_False not_not
          refl if_True not_True_eq_False)
  show ?thesis
  proof (cases "buf ! (p + 3) AND 0x80 \<noteq> 0")
    case True
    with run' tag len obtain l where
      loop: "der_length_loop buf (unat (buf ! (p + 3))) 0 (p + 4) (len - 4) t0 =
               Cont (l, q, len', t)"
      and chk: "ucast l = t" and oid: "oid = \<lparr>oid_length = l, oid_elements = q\<rparr>"
      by (auto simp: then_step_Cont split: if_splits)
    from der_length_loop_Cont [OF loop] q have qd: "q = p + 4 + unat (buf ! (p + 3))"
      by simp
    have "der_length_loop buf' (unat (buf ! (p + 3))) 0 (p + 4) (len2 - 4) t0 =
            Cont (l, q, len2 - 4 - of_nat (unat (buf ! (p + 3))), t)"
      using same inside by (intro der_length_loop_prefix [OF loop]) (simp_all add: qd)
    moreover have "len2 - 4 - of_nat (unat (buf ! (p + 3))) = len2 - of_nat (q - p)"
      by (simp add: qd)
    ultimately have loop': "der_length_loop buf' (unat (buf ! (p + 3))) 0 (p + 4) (len2 - 4) t0 =
            Cont (l, q, len2 - of_nat (q - p), t)"
      by (simp only:)
    show ?thesis
      using True chk oid
      by (simp add: unf' loop' then_step_def)
  next
    case False
    with run' tag len have
      chk: "ucast (ucast (buf ! (p + 3)) :: OM_uint32) = t" and qd: "q = p + 4"
      and oid: "oid = \<lparr>oid_length = ucast (buf ! (p + 3)), oid_elements = q\<rparr>"
      and t0: "t = t0"
      by (auto simp: then_step_Cont split: if_splits)
    show ?thesis
      using False chk oid qd t0
      by (simp add: unf' then_step_def)
  qed
qed

text \<open>
  Whenever the OID field is accepted with the high bit of the length byte set, the loop
  has consumed as many bytes as the whole length byte says, 128 at least.
\<close>

lemma high_bit_set:
  fixes b :: byte
  assumes "b AND 0x80 \<noteq> 0"
  shows "128 \<le> unat b"
proof (rule ccontr)
  assume "\<not> 128 \<le> unat b"
  then have "unat b < 2 ^ 7" by simp
  then have "take_bit 7 (unat b) = unat b"
    by (rule take_bit_nat_eq_self)
  then have "unat (take_bit 7 b) = unat b"
    by (simp add: unsigned_take_bit_eq)
  then have low: "take_bit 7 b = b"
    by (simp only: word_unat_eq_iff)
  have "(0x80 :: byte) = push_bit 7 1" by simp
  moreover have "take_bit 7 b AND push_bit 7 1 = 0"
    by (rule bit_eqI) (simp only: bit_and_iff bit_take_bit_iff bit_push_bit_iff, auto)
  ultimately show False
    using low assms by simp
qed

lemma long_form_consumes_whole_byte:
  assumes run: "mech_oid_field buf p len = Cont (oid, q, len', t)"
    and long: "buf ! (p + 3) AND 0x80 \<noteq> 0"
  shows "q = p + 4 + unat (buf ! (p + 3)) \<and> 128 \<le> unat (buf ! (p + 3))"
proof -
  from mech_oid_field_Cont [OF run] have four: "p + 4 \<le> length buf"
    by simp
  define t0 :: size_t where
    "t0 = int_to_size_t (push_bit 8 (ucast (buf ! p)) + ucast (buf ! (p + 1))) - 2"
  note run' = run [unfolded mech_oid_field_unfold [OF four] t0_def [symmetric]]
  have tag: "buf ! (p + 2) = 6" and len: "\<not> len < 2"
    using run' by (simp_all split: if_splits)
  with run' long obtain l where
    "der_length_loop buf (unat (buf ! (p + 3))) 0 (p + 4) (len - 4) t0 = Cont (l, q, len', t)"
    by (auto simp: then_step_Cont split: if_splits)
  from der_length_loop_Cont [OF this] four have "q = p + 4 + unat (buf ! (p + 3))"
    by simp
  with high_bit_set [OF long] show ?thesis
    by simp
qed

text \<open>
  C5: a composite token whose mechanism OID field parses is accepted, and so is every
  buffer that keeps its bytes up to the end of the OID header and continues with any
  other bytes: the parser enforces no NAME_LEN and rejects the token for nothing that
  follows.
\<close>

theorem composite_remainder_is_opaque:
  assumes tid: "tok_id buf = Cont (True, p, len)"
    and oidf: "mech_oid_field buf p len = Cont (oid, q, len', t)"
    and bound: "length (take q buf @ rest) < 2 ^ 64"
  shows "parse_export_name buf =
           Cont \<lparr>composite = True, mech_oid = oid, tok_p = q, tok_len = len'\<rparr> \<and>
         parse_export_name (take q buf @ rest) =
           Cont \<lparr>composite = True, mech_oid = oid, tok_p = q, tok_len = of_nat (length rest)\<rparr>"
proof
  show "parse_export_name buf =
          Cont \<lparr>composite = True, mech_oid = oid, tok_p = q, tok_len = len'\<rparr>"
    by (simp add: parse_export_name_def tid oidf then_step_def name_len_field_def)
next
  define buf' where "buf' = take q buf @ rest"
  from tok_id_Cont [OF tid] have p: "p = 2" and b0: "buf ! 0 = 4" and b1: "buf ! 1 = 2"
    by simp_all
  from mech_oid_field_Cont [OF oidf] p have q: "6 \<le> q" "q \<le> length buf"
    by simp_all
  have len_buf': "length buf' = q + length rest"
    using q by (simp add: buf'_def)
  have same: "take q buf' = take q buf"
    using q by (simp add: buf'_def)
  have b64: "length buf' < 2 ^ 64"
    using bound by (simp add: buf'_def)
  have ulen: "unat (of_nat (length buf') :: size_t) = length buf'"
    using b64 by (rule unat_of_nat_64)
  have ge6: "6 \<le> length buf'"
    using q by (simp add: len_buf')
  have not_short: "\<not> (of_nat (length buf') :: size_t) < 2"
    using ge6 by (simp add: word_less_nat_alt ulen)
  have "(2 :: size_t) \<le> of_nat (length buf')"
    using ge6 by (simp add: word_le_nat_alt ulen)
  then have "unat (of_nat (length buf') - 2 :: size_t) = length buf' - 2"
    by (simp add: unat_sub ulen)
  then have not_short2: "\<not> (of_nat (length buf') - 2 :: size_t) < 2"
    using ge6 by (simp add: word_less_nat_alt)
  have "buf' ! 0 = buf ! 0" "buf' ! 1 = buf ! 1"
    using same q by (auto intro!: nth_of_equal_prefix [of q])
  then have "peek buf' 0 0 = Cont 4" "peek buf' 0 1 = Cont 2"
    using ge6 b0 b1 by (auto simp: peek_def)
  then have tid': "tok_id buf' = Cont (True, 2, of_nat (length buf') - 2)"
    using not_short by (simp add: tok_id_def then_step_def)
  have inside: "q \<le> length buf'"
    by (simp add: len_buf')
  have "of_nat (length buf') - 2 - of_nat (q - 2) = (of_nat (length rest) :: size_t)"
    using q by (simp add: len_buf')
  with mech_oid_field_prefix [OF oidf [unfolded p] same inside not_short2]
  have oidf': "mech_oid_field buf' 2 (of_nat (length buf') - 2) =
                 Cont (oid, q, of_nat (length rest), t)"
    by (simp only:)
  show "parse_export_name (take q buf @ rest) =
          Cont \<lparr>composite = True, mech_oid = oid, tok_p = q, tok_len = of_nat (length rest)\<rparr>"
    unfolding buf'_def [symmetric]
    by (simp add: parse_export_name_def tid' oidf' then_step_def name_len_field_def)
qed

theorem composite_remainder_is_opaque_witness:
  "tok_id composite_example = Cont (True, 2, 22) \<and>
   mech_oid_field composite_example 2 22 =
     Cont (\<lparr>oid_length = 9, oid_elements = 6\<rparr>, 6, 18, 9) \<and>
   length (take 6 composite_example @ [0xFF]) < 2 ^ 64 \<and>
   parse_export_name composite_example =
     Cont \<lparr>composite = True, mech_oid = \<lparr>oid_length = 9, oid_elements = 6\<rparr>,
           tok_p = 6, tok_len = 18\<rparr> \<and>
   parse_export_name [0x04, 0x02, 0x00, 0x0B, 0x06, 0x09, 0xFF] =
     Cont \<lparr>composite = True, mech_oid = \<lparr>oid_length = 9, oid_elements = 6\<rparr>,
           tok_p = 6, tok_len = 1\<rparr>"
proof -
  have h1: "tok_id composite_example = Cont (True, 2, 22)"
    by code_simp
  have h2: "mech_oid_field composite_example 2 22 =
              Cont (\<lparr>oid_length = 9, oid_elements = 6\<rparr>, 6, 18, 9)"
    by code_simp
  have h3: "length (take 6 composite_example @ [0xFF]) < 2 ^ 64"
    by (simp add: composite_example_def)
  have pre: "take 6 composite_example @ [0xFF] = [0x04, 0x02, 0x00, 0x0B, 0x06, 0x09, 0xFF]"
    by (simp add: composite_example_def)
  from composite_remainder_is_opaque [OF h1 h2 h3] h1 h2 h3 show ?thesis
    by (simp add: pre)
qed

section \<open>Dispatch of an exported name to its mechanism\<close>

lemma alloc_calls: "calls (snd (alloc r w)) = calls w"
  by (simp add: alloc_def split: list.splits)

lemma gss_create_name_calls: "calls (snd (gss_create_name nm w)) = calls w"
  by (auto simp: gss_create_name_def alloc_def free_def split: list.splits option.splits prod.splits)

lemma oid_lookup:
  assumes "oid_content buf oid = Some bytes"
  shows "gss_get_mechanism mechs buf oid =
           Done (map_option gm_mech (find (\<lambda>m. gmi_mech_oid (gm_mech m) = bytes) mechs))"
proof -
  have len: "length bytes = unat (oid_length oid)"
    using assms by (auto simp: oid_content_def view_def split: if_splits)
  show ?thesis
    using assms len by (induction mechs) auto
qed

lemma dispatch_invokes_import:
  assumes "parse_export_name buf = Cont tok"
    and "gss_get_mechanism mechs buf (mech_oid tok) = Done (Some m)"
    and "gm_import_name m = Some imp"
  shows "\<exists>major out w'.
           gss_import_export_name mechs w buf name_type = Done (major, out, w') \<and>
           (\<exists>later. calls w' = calls w @ Import_name (gmi_mech_oid m) buf name_type # later) \<and>
           (major = fst (imp buf name_type) \<or> fst (imp buf name_type) = GSS_S_COMPLETE)"
proof -
  obtain major minor h where r: "imp buf name_type = (major, minor, h)"
    by (cases "imp buf name_type") auto
  show ?thesis
  proof (cases "major = GSS_S_COMPLETE")
    case False
    then show ?thesis
      using assms r
      by (simp add: gss_import_export_name_def call_import_name_def gss_mg_error_def)
  next
    case True
    define w1 where "w1 = w\<lparr>live := Mech_name (gmi_mech_oid m) h # live w,
        calls := calls w @ [Import_name (gmi_mech_oid m) buf name_type],
        minor_status := Some minor\<rparr>"
    obtain nm w2 where c: "gss_create_name (Some (h, m)) w1 = (nm, w2)"
      by (cases "gss_create_name (Some (h, m)) w1") auto
    from gss_create_name_calls [of "Some (h, m)" w1] c have "calls w2 = calls w1"
      by simp
    then show ?thesis
      using assms r True c
      by (cases nm; cases "gm_release_name m h")
         (simp_all add: gss_import_export_name_def call_import_name_def
            call_release_name_def w1_def)
  qed
qed

lemma krb5_example_token:
  "parse_export_name krb5_example =
     Cont \<lparr>composite = False, mech_oid = \<lparr>oid_length = 9, oid_elements = 6\<rparr>,
           tok_p = 19, tok_len = 3\<rparr>"
  by code_simp

lemma krb5_example_oid:
  "oid_content krb5_example \<lparr>oid_length = 9, oid_elements = 6\<rparr> = Some mech_oid_krb5"
  by code_simp

lemma krb5_example_lookup:
  "gss_get_mechanism [mech_returning mech_oid_krb5 status] krb5_example
     \<lparr>oid_length = 9, oid_elements = 6\<rparr> =
   Done (Some (gm_mech (mech_returning mech_oid_krb5 status)))"
  by (simp add: oid_lookup [OF krb5_example_oid] mech_returning_def)

text \<open>
  C7: when the token parses, the mechanism resolves and has an import-name operation,
  that operation is the first one invoked, with the whole token buffer as it was passed
  in (not the payload the parser found) and the caller's name type; a status other than
  \<^verbatim>\<open>GSS_S_COMPLETE\<close> is returned as it is.
\<close>

theorem import_name_gets_full_token:
  assumes "parse_export_name buf = Cont tok"
    and "gss_get_mechanism mechs buf (mech_oid tok) = Done (Some m)"
    and "gm_import_name m = Some imp"
  shows "\<exists>major out w'.
           gss_import_export_name mechs w buf name_type = Done (major, out, w') \<and>
           (\<exists>later. calls w' = calls w @ Import_name (gmi_mech_oid m) buf name_type # later) \<and>
           (major = fst (imp buf name_type) \<or> fst (imp buf name_type) = GSS_S_COMPLETE)"
  using assms by (rule dispatch_invokes_import)

theorem import_name_gets_full_token_witness:
  "parse_export_name krb5_example =
     Cont \<lparr>composite = False, mech_oid = \<lparr>oid_length = 9, oid_elements = 6\<rparr>,
           tok_p = 19, tok_len = 3\<rparr> \<and>
   gss_get_mechanism [mech_returning mech_oid_krb5 GSS_S_COMPLETE] krb5_example
     \<lparr>oid_length = 9, oid_elements = 6\<rparr> =
     Done (Some (gm_mech (mech_returning mech_oid_krb5 GSS_S_COMPLETE))) \<and>
   (\<exists>major out w'.
      gss_import_export_name [mech_returning mech_oid_krb5 GSS_S_COMPLETE] world0 krb5_example
        (Some GSS_C_NT_EXPORT_NAME) = Done (major, out, w') \<and>
      (\<exists>later. calls w' =
         Import_name mech_oid_krb5 krb5_example (Some GSS_C_NT_EXPORT_NAME) # later))"
proof -
  have imp: "gm_import_name (gm_mech (mech_returning mech_oid_krb5 GSS_S_COMPLETE)) =
               Some (\<lambda>buf name_type. (GSS_S_COMPLETE, 0, length buf))"
    by (simp add: mech_returning_def)
  have lk: "gss_get_mechanism [mech_returning mech_oid_krb5 GSS_S_COMPLETE] krb5_example
      (mech_oid \<lparr>composite = False, mech_oid = \<lparr>oid_length = 9, oid_elements = 6\<rparr>,
           tok_p = 19, tok_len = 3\<rparr>) =
     Done (Some (gm_mech (mech_returning mech_oid_krb5 GSS_S_COMPLETE)))"
    by (simp only: export_name_token.select_convs krb5_example_lookup)
  have oid: "gmi_mech_oid (gm_mech (mech_returning mech_oid_krb5 GSS_S_COMPLETE)) = mech_oid_krb5"
    by (simp add: mech_returning_def)
  have "\<exists>major out w'.
      gss_import_export_name [mech_returning mech_oid_krb5 GSS_S_COMPLETE] world0 krb5_example
        (Some GSS_C_NT_EXPORT_NAME) = Done (major, out, w') \<and>
      (\<exists>later. calls w' =
         Import_name mech_oid_krb5 krb5_example (Some GSS_C_NT_EXPORT_NAME) # later)"
    using import_name_gets_full_token [OF krb5_example_token lk imp, of world0
        "Some GSS_C_NT_EXPORT_NAME"]
    unfolding oid by (simp add: world0_def)
  with krb5_example_token krb5_example_lookup [of GSS_S_COMPLETE] show ?thesis
    by (simp only:) 
qed

text \<open>
  C8, as stated: BadMech exactly when the OID is not registered or the mechanism lacks
  the import-name operation. A registered mechanism whose import-name operation itself
  returns \<^verbatim>\<open>GSS_S_BAD_MECH\<close> makes the call fail with BadMech as well: the status of
  the mechanism is returned as it is.
\<close>

theorem bad_mech_from_resolved_mechanism:
  "parse_export_name krb5_example =
     Cont \<lparr>composite = False, mech_oid = \<lparr>oid_length = 9, oid_elements = 6\<rparr>,
           tok_p = 19, tok_len = 3\<rparr> \<and>
   oid_content krb5_example \<lparr>oid_length = 9, oid_elements = 6\<rparr> = Some mech_oid_krb5 \<and>
   gmi_mech_oid (gm_mech (mech_returning mech_oid_krb5 GSS_S_BAD_MECH)) = mech_oid_krb5 \<and>
   gm_import_name (gm_mech (mech_returning mech_oid_krb5 GSS_S_BAD_MECH)) \<noteq> None \<and>
   gss_import_export_name [mech_returning mech_oid_krb5 GSS_S_BAD_MECH] world0 krb5_example
       (Some GSS_C_NT_EXPORT_NAME) =
     Done (GSS_S_BAD_MECH, None,
           \<lparr>live = [],
            calls = [Import_name mech_oid_krb5 krb5_example (Some GSS_C_NT_EXPORT_NAME),
                     Mg_error mech_oid_krb5 0],
            alloc_outcomes = [], minor_status = Some 0\<rparr>)"
proof -
  have "gss_import_export_name [mech_returning mech_oid_krb5 GSS_S_BAD_MECH] world0 krb5_example
       (Some GSS_C_NT_EXPORT_NAME) =
     Done (GSS_S_BAD_MECH, None,
           \<lparr>live = [],
            calls = [Import_name mech_oid_krb5 krb5_example (Some GSS_C_NT_EXPORT_NAME),
                     Mg_error mech_oid_krb5 0],
            alloc_outcomes = [], minor_status = Some 0\<rparr>)"
    by (simp only: gss_import_export_name_def krb5_example_token step.case
          export_name_token.select_convs krb5_example_lookup)
       (simp add: mech_returning_def call_import_name_def gss_mg_error_def world0_def)
  then show ?thesis
    using krb5_example_token krb5_example_oid by (simp add: mech_returning_def)
qed

text \<open>
  C8, amended: after the token has parsed and the lookup has returned, the call fails
  with BadMech before any mechanism operation is invoked (nothing but the minor status
  has changed) exactly when the lookup found no mechanism for the parsed OID or the
  mechanism found lacks the import-name operation.
\<close>

theorem bad_mech_without_dispatch_iff:
  assumes "parse_export_name buf = Cont tok"
    and "gss_get_mechanism mechs buf (mech_oid tok) = Done r"
  shows "gss_import_export_name mechs w buf name_type =
           Done (GSS_S_BAD_MECH, None, w\<lparr>minor_status := Some 0\<rparr>) \<longleftrightarrow>
         (case r of None \<Rightarrow> True | Some m \<Rightarrow> gm_import_name m = None)"
proof (cases r)
  case None
  then show ?thesis
    using assms by (simp add: gss_import_export_name_def)
next
  case found: (Some m)
  show ?thesis
  proof (cases "gm_import_name m")
    case None
    then show ?thesis
      using assms found by (simp add: gss_import_export_name_def)
  next
    case (Some imp)
    from dispatch_invokes_import [OF assms(1) assms(2) [unfolded found] Some, of w name_type]
    obtain major out w' later where
      "gss_import_export_name mechs w buf name_type = Done (major, out, w')"
      and "calls w' = calls w @ Import_name (gmi_mech_oid m) buf name_type # later"
      by blast
    then have "gss_import_export_name mechs w buf name_type \<noteq>
                 Done (GSS_S_BAD_MECH, None, w\<lparr>minor_status := Some 0\<rparr>)"
      by auto
    then show ?thesis
      using Some found by simp
  qed
qed

theorem bad_mech_without_dispatch_iff_witness:
  "parse_export_name krb5_example =
     Cont \<lparr>composite = False, mech_oid = \<lparr>oid_length = 9, oid_elements = 6\<rparr>,
           tok_p = 19, tok_len = 3\<rparr> \<and>
   gss_get_mechanism [] krb5_example \<lparr>oid_length = 9, oid_elements = 6\<rparr> = Done None \<and>
   gss_import_export_name [] world0 krb5_example (Some GSS_C_NT_EXPORT_NAME) =
     Done (GSS_S_BAD_MECH, None, world0\<lparr>minor_status := Some 0\<rparr>)"
proof -
  have lk: "gss_get_mechanism [] krb5_example
      (mech_oid \<lparr>composite = False, mech_oid = \<lparr>oid_length = 9, oid_elements = 6\<rparr>,
           tok_p = 19, tok_len = 3\<rparr>) = Done None"
    by simp
  from bad_mech_without_dispatch_iff [OF krb5_example_token lk, of world0
      "Some GSS_C_NT_EXPORT_NAME"]
  have "gss_import_export_name [] world0 krb5_example (Some GSS_C_NT_EXPORT_NAME) =
     Done (GSS_S_BAD_MECH, None, world0\<lparr>minor_status := Some 0\<rparr>)"
    by simp
  with krb5_example_token show ?thesis
    by simp
qed

lemma gss_create_name_fails:
  assumes "fst (gss_create_name nm w) = None" and "alloc_outcomes w1 = alloc_outcomes w"
  shows "fst (gss_create_name nm w1) = None \<and> live (snd (gss_create_name nm w1)) = live w1"
  using assms
  by (auto simp: gss_create_name_def alloc_def free_def
        split: list.splits option.splits prod.splits if_splits)

text \<open>
  C10: when the mechanism has imported the name and the allocation of the wrapping
  GenericName fails, the mechanism's release-name operation is invoked on the name just
  imported and the call returns \<^verbatim>\<open>GSS_S_FAILURE\<close> with the null name in the output
  slot; the mechanism's name is no longer allocated. (An import does not consume the
  allocation outcomes of the mech-glue, so the failure is stated on the entry state.)
\<close>

theorem wrapping_failure_releases_mechanism_name:
  assumes "parse_export_name buf = Cont tok"
    and "gss_get_mechanism mechs buf (mech_oid tok) = Done (Some m)"
    and "gm_import_name m = Some imp"
    and "imp buf name_type = (GSS_S_COMPLETE, minor, h)"
    and "fst (gss_create_name (Some (h, m)) w) = None"
  shows "\<exists>w'. gss_import_export_name mechs w buf name_type = Done (GSS_S_FAILURE, None, w') \<and>
           calls w' = calls w @ [Import_name (gmi_mech_oid m) buf name_type,
                                 Release_name (gmi_mech_oid m) h] \<and>
           live w' = live w"
proof -
  define w1 where "w1 = w\<lparr>live := Mech_name (gmi_mech_oid m) h # live w,
      calls := calls w @ [Import_name (gmi_mech_oid m) buf name_type],
      minor_status := Some minor\<rparr>"
  have "alloc_outcomes w1 = alloc_outcomes w"
    by (simp add: w1_def)
  from gss_create_name_fails [OF assms(5) this]
  obtain w2 where c: "gss_create_name (Some (h, m)) w1 = (None, w2)" and l: "live w2 = live w1"
    by (cases "gss_create_name (Some (h, m)) w1") auto
  from gss_create_name_calls [of "Some (h, m)" w1] c have k: "calls w2 = calls w1"
    by simp
  show ?thesis
    using assms(1-4) c l k
    by (cases "gm_release_name m h")
       (simp add: gss_import_export_name_def call_import_name_def call_release_name_def w1_def)
qed

theorem wrapping_failure_releases_mechanism_name_witness:
  "parse_export_name krb5_example =
     Cont \<lparr>composite = False, mech_oid = \<lparr>oid_length = 9, oid_elements = 6\<rparr>,
           tok_p = 19, tok_len = 3\<rparr> \<and>
   gss_get_mechanism [mech_returning mech_oid_krb5 GSS_S_COMPLETE] krb5_example
     \<lparr>oid_length = 9, oid_elements = 6\<rparr> =
     Done (Some (gm_mech (mech_returning mech_oid_krb5 GSS_S_COMPLETE))) \<and>
   fst (gss_create_name (Some (22, gm_mech (mech_returning mech_oid_krb5 GSS_S_COMPLETE)))
          (world0\<lparr>alloc_outcomes := [False]\<rparr>)) = None \<and>
   (\<exists>w'. gss_import_export_name [mech_returning mech_oid_krb5 GSS_S_COMPLETE]
            (world0\<lparr>alloc_outcomes := [False]\<rparr>) krb5_example (Some GSS_C_NT_EXPORT_NAME) =
            Done (GSS_S_FAILURE, None, w') \<and>
          calls w' = [Import_name mech_oid_krb5 krb5_example (Some GSS_C_NT_EXPORT_NAME),
                      Release_name mech_oid_krb5 22] \<and>
          live w' = [])"
proof -
  let ?m = "gm_mech (mech_returning mech_oid_krb5 GSS_S_COMPLETE)"
  let ?w = "world0\<lparr>alloc_outcomes := [False]\<rparr>"
  have imp: "gm_import_name ?m = Some (\<lambda>buf name_type. (GSS_S_COMPLETE, 0, length buf))"
    by (simp add: mech_returning_def)
  have lk: "gss_get_mechanism [mech_returning mech_oid_krb5 GSS_S_COMPLETE] krb5_example
      (mech_oid \<lparr>composite = False, mech_oid = \<lparr>oid_length = 9, oid_elements = 6\<rparr>,
           tok_p = 19, tok_len = 3\<rparr>) = Done (Some ?m)"
    by (simp only: export_name_token.select_convs krb5_example_lookup)
  have res: "(\<lambda>buf name_type. (GSS_S_COMPLETE, 0 :: OM_uint32, length buf)) krb5_example
               (Some GSS_C_NT_EXPORT_NAME) = (GSS_S_COMPLETE, 0, 22)"
    by (simp add: krb5_example_def)
  have fails: "fst (gss_create_name (Some (22, ?m)) ?w) = None"
    by (simp add: gss_create_name_def alloc_def world0_def)
  have oid: "gmi_mech_oid ?m = mech_oid_krb5"
    by (simp add: mech_returning_def)
  have "\<exists>w'. gss_import_export_name [mech_returning mech_oid_krb5 GSS_S_COMPLETE]
            ?w krb5_example (Some GSS_C_NT_EXPORT_NAME) =
            Done (GSS_S_FAILURE, None, w') \<and>
          calls w' = [Import_name mech_oid_krb5 krb5_example (Some GSS_C_NT_EXPORT_NAME),
                      Release_name mech_oid_krb5 22] \<and>
          live w' = []"
    using wrapping_failure_releases_mechanism_name [OF krb5_example_token lk imp res fails]
    unfolding oid by (simp add: world0_def)
  with krb5_example_token krb5_example_lookup [of GSS_S_COMPLETE] fails show ?thesis
    by (simp only:)
qed

section \<open>The loop over the mechanisms\<close>

lemma alloc_succeeds:
  assumes "no_alloc_failure w"
  shows "\<exists>w'. alloc r w = (True, w') \<and> live w' = r # live w \<and> no_alloc_failure w' \<and>
           calls w' = calls w \<and> minor_status w' = minor_status w"
  using assms by (cases "alloc_outcomes w") (auto simp: alloc_def no_alloc_failure_def)

lemma import_into_mechs_completes:
  assumes "no_alloc_failure w"
    and "\<forall>m \<in> set ms. eligible (gn_type name) m \<longrightarrow> gm_import_name (gm_mech m) \<noteq> None"
  shows "\<exists>w'. import_into_mechs ms (gn_type name) name w =
           Completed
             (name\<lparr>gn_mn := gn_mn name @
                map (mechanism_name_of (buffer_bytes (gn_value name)) (gn_type name))
                  (filter (import_succeeds (buffer_bytes (gn_value name)) (gn_type name))
                     (filter (eligible (gn_type name)) ms))\<rparr>) w' \<and>
           no_alloc_failure w' \<and>
           live w' =
             concat (map resources_of (rev
               (map (mechanism_name_of (buffer_bytes (gn_value name)) (gn_type name))
                  (filter (import_succeeds (buffer_bytes (gn_value name)) (gn_type name))
                     (filter (eligible (gn_type name)) ms))))) @ live w"
  using assms
proof (induction ms arbitrary: name w)
  case Nil
  then show ?case by simp
next
  case (Cons m ms)
  let ?nt = "gn_type name"
  let ?buf = "buffer_bytes (gn_value name)"
  have rest: "\<forall>m \<in> set ms. eligible ?nt m \<longrightarrow> gm_import_name (gm_mech m) \<noteq> None"
    using Cons.prems(2) by simp
  show ?case
  proof (cases "eligible ?nt m")
    case False
    have skip: "\<exists>w0. import_into_mechs (m # ms) ?nt name w = import_into_mechs ms ?nt name w0 \<and>
                  no_alloc_failure w0 \<and> live w0 = live w"
      using False Cons.prems(1)
      by (cases ?nt) (auto simp: eligible_def gss_test_oid_set_member_def no_alloc_failure_def)
    then obtain w0 where w0: "import_into_mechs (m # ms) ?nt name w = import_into_mechs ms ?nt name w0"
      "no_alloc_failure w0" "live w0 = live w"
      by blast
    from Cons.IH [OF w0(2) rest] w0(1,3) False show ?thesis
      by simp
  next
    case True
    then obtain imp where imp: "gm_import_name (gm_mech m) = Some imp"
      using Cons.prems(2) by auto
    obtain major minor h where r: "imp ?buf ?nt = (major, minor, h)"
      by (cases "imp ?buf ?nt") auto
    have test: "\<not> gm_use_mg_name (gm_mech m)"
      "(case ?nt of None \<Rightarrow> (True, w)
         | Some nt \<Rightarrow> (gss_test_oid_set_member nt (gm_name_types m), w\<lparr>minor_status := None\<rparr>)) =
       (True, case ?nt of None \<Rightarrow> w | Some nt \<Rightarrow> w\<lparr>minor_status := None\<rparr>)"
      using True by (auto simp: eligible_def gss_test_oid_set_member_def split: option.splits)
    define w0 where "w0 = (case ?nt of None \<Rightarrow> w | Some nt \<Rightarrow> w\<lparr>minor_status := None\<rparr>)"
    have w0: "no_alloc_failure w0" "live w0 = live w"
      using Cons.prems(1) by (auto simp: w0_def no_alloc_failure_def split: option.splits)
    from alloc_succeeds [OF w0(1), of Mn_node] obtain w1 where
      w1: "alloc Mn_node w0 = (True, w1)" "live w1 = Mn_node # live w0" "no_alloc_failure w1"
      by blast
    show ?thesis
    proof (cases "major = GSS_S_COMPLETE")
      case False
      define w3 where "w3 = free Mn_node (gss_mg_error (gm_mech m) minor
          ((snd (call_import_name (gm_mech m) imp ?buf ?nt w1))\<lparr>minor_status := Some minor\<rparr>))"
      have step: "import_into_mechs (m # ms) ?nt name w = import_into_mechs ms ?nt name w3"
        using test imp r False w1(1)
        by (simp add: w0_def [symmetric] w3_def call_import_name_def)
      have w3: "no_alloc_failure w3" "live w3 = live w"
        using w1 w0 r False
        by (simp_all add: w3_def free_def gss_mg_error_def call_import_name_def
              no_alloc_failure_def)
      have "\<not> import_succeeds ?buf ?nt m"
        using imp r False by (simp add: import_succeeds_def import_status_def)
      with Cons.IH [OF w3(1) rest] step w3(2) True show ?thesis
        by simp
    next
      case complete: True
      define mn where "mn = \<lparr>gmn_mech = gm_mech m, gmn_mech_oid = gm_mech_oid m, gmn_name = h\<rparr>"
      define name' where "name' = name\<lparr>gn_mn := gn_mn name @ [mn]\<rparr>"
      define w2 where "w2 =
          (snd (call_import_name (gm_mech m) imp ?buf ?nt w1))\<lparr>minor_status := Some minor\<rparr>"
      have step: "import_into_mechs (m # ms) ?nt name w = import_into_mechs ms ?nt name' w2"
        using test imp r complete w1(1)
        by (simp add: w0_def [symmetric] w2_def name'_def mn_def call_import_name_def)
      have w2: "no_alloc_failure w2" "live w2 = resources_of mn @ live w"
        using w1 w0 r complete
        by (simp_all add: w2_def call_import_name_def no_alloc_failure_def resources_of_def mn_def)
      have same: "gn_type name' = ?nt" "gn_value name' = gn_value name"
        by (simp_all add: name'_def)
      have mn: "mechanism_name_of ?buf ?nt m = mn"
        using imp r by (simp add: mechanism_name_of_def mn_def)
      have ok: "import_succeeds ?buf ?nt m"
        using imp r complete by (simp add: import_succeeds_def import_status_def)
      from Cons.IH [of w2 name', OF w2(1)] rest
      obtain w' where
        "import_into_mechs ms ?nt name' w2 =
           Completed
             (name'\<lparr>gn_mn := gn_mn name' @
                map (mechanism_name_of ?buf ?nt)
                  (filter (import_succeeds ?buf ?nt) (filter (eligible ?nt) ms))\<rparr>) w'"
        "no_alloc_failure w'"
        "live w' =
             concat (map resources_of (rev
               (map (mechanism_name_of ?buf ?nt)
                  (filter (import_succeeds ?buf ?nt) (filter (eligible ?nt) ms))))) @ live w2"
        unfolding same by blast
      then show ?thesis
        using step True ok mn w2(2)
        by (simp add: name'_def)
    qed
  qed
qed


lemma generic_path_reaches_loop:
  assumes "\<not> gss_oid_equal name_type GSS_C_NT_EXPORT_NAME"
    and "\<not> gss_oid_equal name_type GSS_C_NT_COMPOSITE_EXPORT"
    and "no_alloc_failure w"
  shows "\<exists>w3. no_alloc_failure w3 \<and>
           live w3 = Value_buffer buf #
                       (case name_type of None \<Rightarrow> [] | Some ty \<Rightarrow> [Interned_oid ty]) @
                       Name_struct # live w \<and>
           gss_import_name mechs w (Some buf) name_type True =
             (case import_into_mechs mechs name_type
                     \<lparr>gn_type = name_type, gn_value = Some buf, gn_mn = [], is_mn = False\<rparr> w3 of
                Loop_undefined f \<Rightarrow> Undefined f
              | Goto_out major name w4 \<Rightarrow> Done (major, None, gss_release_name name w4)
              | Completed name w4 \<Rightarrow>
                  if gn_mn name = []
                  then Done (GSS_S_NAME_NOT_MN, None,
                             gss_release_name name (w4\<lparr>minor_status := Some 0\<rparr>))
                  else Done (GSS_S_COMPLETE, Some name, w4))"
proof -
  have "no_alloc_failure (w\<lparr>minor_status := Some 0\<rparr>)"
    using assms(3) by (simp add: no_alloc_failure_def)
  from alloc_succeeds [OF this, of Name_struct] obtain w1 where
    w1: "alloc Name_struct (w\<lparr>minor_status := Some 0\<rparr>) = (True, w1)"
      "live w1 = Name_struct # live w" "no_alloc_failure w1"
    by auto
  have create: "gss_create_name None (w\<lparr>minor_status := Some 0\<rparr>) =
      (Some \<lparr>gn_type = None, gn_value = None, gn_mn = [], is_mn = False\<rparr>, w1)"
    by (simp add: gss_create_name_def w1(1))
  obtain w2 where
    w2: "(case name_type of None \<Rightarrow> ((GSS_S_COMPLETE, None), w1)
          | Some nt \<Rightarrow> gss_intern_oid nt w1) = ((GSS_S_COMPLETE, name_type), w2)"
      "live w2 = (case name_type of None \<Rightarrow> [] | Some ty \<Rightarrow> [Interned_oid ty]) @ live w1"
      "no_alloc_failure w2"
  proof (cases name_type)
    case None
    with w1 that show ?thesis by simp
  next
    case (Some ty)
    from alloc_succeeds [OF w1(3), of "Interned_oid ty"] obtain v where
      "alloc (Interned_oid ty) w1 = (True, v)" "live v = Interned_oid ty # live w1"
      "no_alloc_failure v"
      by auto
    with Some that [of "v\<lparr>minor_status := None\<rparr>"] show ?thesis
      by (simp add: gss_intern_oid_def no_alloc_failure_def)
  qed
  from alloc_succeeds [OF w2(3), of "Value_buffer buf"] obtain v where
    v: "alloc (Value_buffer buf) w2 = (True, v)" "live v = Value_buffer buf # live w2"
      "no_alloc_failure v"
    by auto
  define w3 where "w3 = v\<lparr>minor_status := None\<rparr>"
  have copy: "gss_copy_buffer buf w2 = ((GSS_S_COMPLETE, Some buf), w3)"
    by (simp add: gss_copy_buffer_def v(1) w3_def)
  have w3: "no_alloc_failure w3" "live w3 = Value_buffer buf #
      (case name_type of None \<Rightarrow> [] | Some ty \<Rightarrow> [Interned_oid ty]) @ Name_struct # live w"
    using v w2 w1 by (simp_all add: w3_def no_alloc_failure_def)
  have "gss_import_name mechs w (Some buf) name_type True =
             (case import_into_mechs mechs name_type
                     \<lparr>gn_type = name_type, gn_value = Some buf, gn_mn = [], is_mn = False\<rparr> w3 of
                Loop_undefined f \<Rightarrow> Undefined f
              | Goto_out major name w4 \<Rightarrow> Done (major, None, gss_release_name name w4)
              | Completed name w4 \<Rightarrow>
                  if gn_mn name = []
                  then Done (GSS_S_NAME_NOT_MN, None,
                             gss_release_name name (w4\<lparr>minor_status := Some 0\<rparr>))
                  else Done (GSS_S_COMPLETE, Some name, w4))"
    using assms(1,2)
    by (simp add: gss_import_name_def create w2(1) copy)
  with w3 show ?thesis by blast
qed

lemmas example_mech_simps =
  mech_returning_def eligible_def import_fails_def import_succeeds_def import_status_def
  mechanism_name_of_def

text \<open>
  C3, as stated: with N eligible mechanisms of which exactly one fails, the GenericName
  returned holds the N - 1 other names. With N = 1 no GenericName is returned: the
  sequence is empty and the call fails with NameNotMN.
\<close>

theorem single_failing_mechanism_is_name_not_mn:
  "length (filter (eligible None) [mech_returning mech_oid_krb5 GSS_S_BAD_NAME]) = 1 \<and>
   length (filter (import_fails foo None)
             (filter (eligible None) [mech_returning mech_oid_krb5 GSS_S_BAD_NAME])) = 1 \<and>
   gss_import_name [mech_returning mech_oid_krb5 GSS_S_BAD_NAME] world0 (Some foo) None True =
     Done (GSS_S_NAME_NOT_MN, None,
           \<lparr>live = [],
            calls = [Import_name mech_oid_krb5 foo None, Mg_error mech_oid_krb5 0],
            alloc_outcomes = [], minor_status = Some 0\<rparr>)"
  by (simp add: example_mech_simps gss_import_name_def gss_oid_equal_def gss_create_name_def
        alloc_def gss_copy_buffer_def world0_def buffer_bytes_def call_import_name_def
        gss_mg_error_def free_def gss_release_name_def)

text \<open>
  C3, amended: on the generic path, with no allocation failing, with N \<ge> 2 eligible
  mechanisms, each with an import-name operation, of which exactly one fails, the call
  succeeds and the GenericName holds exactly the names of the N - 1 mechanisms whose
  import succeeded, in registration order.
\<close>

theorem one_failure_keeps_the_other_names:
  assumes "\<not> gss_oid_equal name_type GSS_C_NT_EXPORT_NAME"
    and "\<not> gss_oid_equal name_type GSS_C_NT_COMPOSITE_EXPORT"
    and "no_alloc_failure w"
    and "\<forall>m \<in> set mechs. eligible name_type m \<longrightarrow> gm_import_name (gm_mech m) \<noteq> None"
    and "length (filter (import_fails buf name_type) (filter (eligible name_type) mechs)) = 1"
    and "2 \<le> length (filter (eligible name_type) mechs)"
  shows "\<exists>name w'.
           gss_import_name mechs w (Some buf) name_type True = Done (GSS_S_COMPLETE, Some name, w') \<and>
           gn_mn name =
             map (mechanism_name_of buf name_type)
               (filter (import_succeeds buf name_type) (filter (eligible name_type) mechs)) \<and>
           length (gn_mn name) = length (filter (eligible name_type) mechs) - 1"
proof -
  let ?elig = "filter (eligible name_type) mechs"
  let ?name = "\<lparr>gn_type = name_type, gn_value = Some buf, gn_mn = [], is_mn = False\<rparr>"
  have "filter (import_succeeds buf name_type) ?elig =
        filter (\<lambda>m. \<not> import_fails buf name_type m) ?elig"
    using assms(4)
    by (intro filter_cong) (auto simp: import_succeeds_def import_fails_def import_status_def)
  then have "length (filter (import_succeeds buf name_type) ?elig) +
        length (filter (import_fails buf name_type) ?elig) = length ?elig"
    using sum_length_filter_compl [of "import_fails buf name_type" ?elig] by simp
  then have count: "length (filter (import_succeeds buf name_type) ?elig) = length ?elig - 1"
    using assms(5) by simp
  then have nonempty: "filter (import_succeeds buf name_type) ?elig \<noteq> []"
    using assms(6) by auto
  from generic_path_reaches_loop [OF assms(1-3), of buf mechs] obtain w3 where
    w3: "no_alloc_failure w3"
    and run: "gss_import_name mechs w (Some buf) name_type True =
             (case import_into_mechs mechs name_type ?name w3 of
                Loop_undefined f \<Rightarrow> Undefined f
              | Goto_out major name w4 \<Rightarrow> Done (major, None, gss_release_name name w4)
              | Completed name w4 \<Rightarrow>
                  if gn_mn name = []
                  then Done (GSS_S_NAME_NOT_MN, None,
                             gss_release_name name (w4\<lparr>minor_status := Some 0\<rparr>))
                  else Done (GSS_S_COMPLETE, Some name, w4))"
    by blast
  from import_into_mechs_completes [of w3 mechs ?name] w3 assms(4) obtain w4 where
    "import_into_mechs mechs name_type ?name w3 =
       Completed (?name\<lparr>gn_mn :=
          map (mechanism_name_of buf name_type)
            (filter (import_succeeds buf name_type) ?elig)\<rparr>) w4"
    by (auto simp: buffer_bytes_def)
  with run nonempty count show ?thesis
    by simp
qed

theorem one_failure_keeps_the_other_names_witness:
  "\<not> gss_oid_equal None GSS_C_NT_EXPORT_NAME \<and>
   \<not> gss_oid_equal None GSS_C_NT_COMPOSITE_EXPORT \<and>
   no_alloc_failure world0 \<and>
   length (filter (eligible None) three_mechs) = 3 \<and>
   length (filter (import_fails foo None) (filter (eligible None) three_mechs)) = 1 \<and>
   (\<exists>name w'.
      gss_import_name three_mechs world0 (Some foo) None True =
        Done (GSS_S_COMPLETE, Some name, w') \<and>
      map gmn_mech_oid (gn_mn name) = [mech_oid_krb5, mech_oid_ntlm] \<and>
      length (gn_mn name) = 2)"
proof -
  have h1: "\<not> gss_oid_equal None GSS_C_NT_EXPORT_NAME"
    and h2: "\<not> gss_oid_equal None GSS_C_NT_COMPOSITE_EXPORT"
    by (simp_all add: gss_oid_equal_def)
  have h3: "no_alloc_failure world0"
    by (simp add: no_alloc_failure_def world0_def)
  have h4: "\<forall>m \<in> set three_mechs. eligible None m \<longrightarrow> gm_import_name (gm_mech m) \<noteq> None"
    by (simp add: three_mechs_def mech_returning_def)
  have elig: "filter (eligible None) three_mechs = three_mechs"
    by (simp add: three_mechs_def example_mech_simps)
  have h5: "length (filter (import_fails foo None) (filter (eligible None) three_mechs)) = 1"
    unfolding elig by (simp add: three_mechs_def example_mech_simps)
  have h6: "2 \<le> length (filter (eligible None) three_mechs)"
    unfolding elig by (simp add: three_mechs_def)
  have ok: "map gmn_mech_oid (map (mechanism_name_of foo None)
              (filter (import_succeeds foo None) three_mechs)) = [mech_oid_krb5, mech_oid_ntlm]"
    by (simp add: three_mechs_def example_mech_simps)
  from one_failure_keeps_the_other_names [OF h1 h2 h3 h4 h5 h6]
  obtain name w' where
    "gss_import_name three_mechs world0 (Some foo) None True = Done (GSS_S_COMPLETE, Some name, w')"
    "gn_mn name = map (mechanism_name_of foo None) (filter (import_succeeds foo None) three_mechs)"
    "length (gn_mn name) = length three_mechs - 1"
    unfolding elig by blast
  then have "\<exists>name w'.
      gss_import_name three_mechs world0 (Some foo) None True =
        Done (GSS_S_COMPLETE, Some name, w') \<and>
      map gmn_mech_oid (gn_mn name) = [mech_oid_krb5, mech_oid_ntlm] \<and>
      length (gn_mn name) = 2"
    using ok by (auto simp: three_mechs_def)
  with h1 h2 h3 h5 elig show ?thesis
    by (simp add: three_mechs_def)
qed

text \<open>
  C4: on the generic path, with no allocation failing, when every eligible mechanism
  fails to import the name, the call fails with NameNotMN, the output slot holds the
  null name, and the GenericName built so far is released: the allocations that are
  live afterwards are those that were live before the call.
\<close>

theorem no_success_releases_everything:
  assumes "\<not> gss_oid_equal name_type GSS_C_NT_EXPORT_NAME"
    and "\<not> gss_oid_equal name_type GSS_C_NT_COMPOSITE_EXPORT"
    and "no_alloc_failure w"
    and "\<forall>m \<in> set mechs. eligible name_type m \<longrightarrow> import_fails buf name_type m"
  shows "\<exists>w'. gss_import_name mechs w (Some buf) name_type True =
                 Done (GSS_S_NAME_NOT_MN, None, w') \<and>
               live w' = live w \<and> minor_status w' = Some 0"
proof -
  let ?elig = "filter (eligible name_type) mechs"
  let ?name = "\<lparr>gn_type = name_type, gn_value = Some buf, gn_mn = [], is_mn = False\<rparr>"
  have has_import: "\<forall>m \<in> set mechs. eligible name_type m \<longrightarrow> gm_import_name (gm_mech m) \<noteq> None"
    using assms(4) by (fastforce simp: import_fails_def import_status_def split: option.splits)
  have none: "filter (import_succeeds buf name_type) ?elig = []"
    using assms(4)
    by (auto simp: filter_empty_conv import_succeeds_def import_fails_def)
  from generic_path_reaches_loop [OF assms(1-3), of buf mechs] obtain w3 where
    w3: "no_alloc_failure w3"
      "live w3 = Value_buffer buf #
         (case name_type of None \<Rightarrow> [] | Some ty \<Rightarrow> [Interned_oid ty]) @ Name_struct # live w"
    and run: "gss_import_name mechs w (Some buf) name_type True =
             (case import_into_mechs mechs name_type ?name w3 of
                Loop_undefined f \<Rightarrow> Undefined f
              | Goto_out major name w4 \<Rightarrow> Done (major, None, gss_release_name name w4)
              | Completed name w4 \<Rightarrow>
                  if gn_mn name = []
                  then Done (GSS_S_NAME_NOT_MN, None,
                             gss_release_name name (w4\<lparr>minor_status := Some 0\<rparr>))
                  else Done (GSS_S_COMPLETE, Some name, w4))"
    by blast
  have bytes: "buffer_bytes (gn_value ?name) = buf" and ty: "gn_type ?name = name_type"
    by (simp_all add: buffer_bytes_def)
  from import_into_mechs_completes [of w3 mechs ?name, unfolded bytes ty none, OF w3(1) has_import]
  obtain w4 where
    loop: "import_into_mechs mechs name_type ?name w3 = Completed ?name w4"
    and w4: "live w4 = live w3"
    by auto
  have "live (gss_release_name ?name (w4\<lparr>minor_status := Some 0\<rparr>)) = live w"
    by (cases name_type) (simp_all add: gss_release_name_def free_def w4 w3(2))
  moreover have "minor_status (gss_release_name ?name (w4\<lparr>minor_status := Some 0\<rparr>)) = Some 0"
    by (cases name_type) (simp_all add: gss_release_name_def free_def)
  ultimately show ?thesis
    using run loop by simp
qed

theorem no_success_releases_everything_witness:
  "\<not> gss_oid_equal (Some mech_oid_krb5) GSS_C_NT_EXPORT_NAME \<and>
   \<not> gss_oid_equal (Some mech_oid_krb5) GSS_C_NT_COMPOSITE_EXPORT \<and>
   no_alloc_failure world0 \<and>
   (\<exists>w'. gss_import_name
            [mech_returning mech_oid_krb5 GSS_S_BAD_NAME,
             (mech_returning mech_oid_spnego GSS_S_BAD_NAMETYPE)\<lparr>gm_name_types := [mech_oid_krb5]\<rparr>]
            world0 (Some foo) (Some mech_oid_krb5) True =
            Done (GSS_S_NAME_NOT_MN, None, w') \<and>
          live w' = [] \<and> minor_status w' = Some 0)"
proof -
  let ?mechs = "[mech_returning mech_oid_krb5 GSS_S_BAD_NAME,
             (mech_returning mech_oid_spnego GSS_S_BAD_NAMETYPE)\<lparr>gm_name_types := [mech_oid_krb5]\<rparr>]"
  have h1: "\<not> gss_oid_equal (Some mech_oid_krb5) GSS_C_NT_EXPORT_NAME"
    and h2: "\<not> gss_oid_equal (Some mech_oid_krb5) GSS_C_NT_COMPOSITE_EXPORT"
    by (simp_all add: gss_oid_equal_def mech_oid_krb5_def GSS_C_NT_EXPORT_NAME_def
          GSS_C_NT_COMPOSITE_EXPORT_def)
  have h3: "no_alloc_failure world0"
    by (simp add: no_alloc_failure_def world0_def)
  have h4: "\<forall>m \<in> set ?mechs. eligible (Some mech_oid_krb5) m \<longrightarrow>
              import_fails foo (Some mech_oid_krb5) m"
    by (simp add: example_mech_simps)
  from no_success_releases_everything [OF h1 h2 h3 h4] h1 h2 h3 show ?thesis
    by (simp add: world0_def)
qed

end
